theory Spec2Isabelle
  imports Complex_Main "HOL-Library.Log_Nat"
begin

section \<open>Python values used by the reminder calculator\<close>

text \<open>
  The calculator of \<^verbatim>\<open>backend/database/calc_reminders.py\<close> works on Python integers
  (unbounded, hence \<^typ>\<open>int\<close>), unit strings, naive \<^verbatim>\<open>datetime\<close> objects and
  \<^verbatim>\<open>timedelta\<close> objects.  Every exception that the code or the library operations it calls can
  raise is a value of \<open>py_error\<close>; a computation returns \<open>py_error + 'a\<close>.
\<close>

datatype py_error =
    ValueError string
  | OverflowError
  | ZeroDivisionError
  | KeyError string
  | AttributeError

subsection \<open>Naive datetimes\<close>

text \<open>
  A naive \<^verbatim>\<open>datetime\<close> is held as the proleptic Gregorian ordinal of its date
  (\<^verbatim>\<open>date.toordinal()\<close>: day 1 is 0001-01-01, day 3652059 is 9999-12-31) together with its
  time-of-day fields.  Python's own \<^verbatim>\<open>datetime.__add__\<close> computes on exactly this
  representation; the year, month and day are recovered by \<open>ord2ymd\<close> below, where the text
  form needs them.
\<close>

record datetime =
  ordinal :: int
  hour :: int
  minute :: int
  second :: int
  microsecond :: int

definition MAXORDINAL :: int where
  "MAXORDINAL = 3652059"

definition valid_datetime :: "datetime \<Rightarrow> bool" where
  "valid_datetime d \<longleftrightarrow>
     1 \<le> ordinal d \<and> ordinal d \<le> MAXORDINAL \<and>
     0 \<le> hour d \<and> hour d < 24 \<and>
     0 \<le> minute d \<and> minute d < 60 \<and>
     0 \<le> second d \<and> second d < 60 \<and>
     0 \<le> microsecond d \<and> microsecond d < 1000000"

text \<open>Comparison of datetimes is the lexicographic comparison of their fields.\<close>

definition dt_less :: "datetime \<Rightarrow> datetime \<Rightarrow> bool" where
  "dt_less a b \<longleftrightarrow>
     ordinal a < ordinal b \<or> (ordinal a = ordinal b \<and>
       (hour a < hour b \<or> (hour a = hour b \<and>
         (minute a < minute b \<or> (minute a = minute b \<and>
           (second a < second b \<or> (second a = second b \<and>
             microsecond a < microsecond b)))))))"

subsection \<open>Timedeltas\<close>

text \<open>
  A \<^verbatim>\<open>timedelta\<close> is normalised to days, seconds in \<open>0..86399\<close> and microseconds in
  \<open>0..999999\<close>; its constructor raises \<^verbatim>\<open>OverflowError\<close> when the magnitude of the day count
  exceeds 999999999.
\<close>

record timedelta =
  days :: int
  seconds :: int
  microseconds :: int

definition timedelta_new :: "int \<Rightarrow> int \<Rightarrow> int \<Rightarrow> py_error + timedelta" where
  "timedelta_new d s us =
     (let s1 = s + us div 1000000;
          us1 = us mod 1000000;
          d1 = d + s1 div 86400;
          s2 = s1 mod 86400
      in if abs d1 > 999999999 then Inl OverflowError
         else Inr \<lparr>days = d1, seconds = s2, microseconds = us1\<rparr>)"

definition timedelta_hours :: "int \<Rightarrow> py_error + timedelta" where
  "timedelta_hours n = timedelta_new 0 (n * 3600) 0"

definition timedelta_days :: "int \<Rightarrow> py_error + timedelta" where
  "timedelta_days n = timedelta_new n 0 0"

definition timedelta_weeks :: "int \<Rightarrow> py_error + timedelta" where
  "timedelta_weeks n = timedelta_new (n * 7) 0 0"

definition timedelta_neg :: "timedelta \<Rightarrow> py_error + timedelta" where
  "timedelta_neg t = timedelta_new (- days t) (- seconds t) (- microseconds t)"

text \<open>
  \<^verbatim>\<open>datetime + timedelta\<close>: the sum is normalised and the result must fall on a day in
  \<open>1..MAXORDINAL\<close>, otherwise \<^verbatim>\<open>OverflowError\<close> ("date value out of range").
\<close>

definition dt_add :: "datetime \<Rightarrow> timedelta \<Rightarrow> py_error + datetime" where
  "dt_add d t =
     (let us = microsecond d + microseconds t;
          s = hour d * 3600 + minute d * 60 + second d + seconds t + us div 1000000;
          dd = ordinal d + days t + s div 86400;
          r = s mod 86400
      in if 0 < dd \<and> dd \<le> MAXORDINAL
         then Inr \<lparr>ordinal = dd, hour = r div 3600, minute = (r mod 3600) div 60,
                   second = r mod 60, microsecond = us mod 1000000\<rparr>
         else Inl OverflowError)"

text \<open>\<^verbatim>\<open>datetime - timedelta\<close> is \<^verbatim>\<open>self + (-other)\<close>.\<close>

definition dt_sub :: "datetime \<Rightarrow> timedelta \<Rightarrow> py_error + datetime" where
  "dt_sub d t = (case timedelta_neg t of Inl e \<Rightarrow> Inl e | Inr n \<Rightarrow> dt_add d n)"

text \<open>
  \<^verbatim>\<open>d.replace(hour=h, minute=m, second=0, microsecond=0)\<close>: the arguments are first converted
  to C integers (\<^verbatim>\<open>OverflowError\<close> outside 32 bits), then the date is kept and the new time
  fields are range-checked in this order.
\<close>

definition dt_replace_time :: "datetime \<Rightarrow> int \<Rightarrow> int \<Rightarrow> py_error + datetime" where
  "dt_replace_time d h m =
     (if \<not> (- 2147483648 \<le> h \<and> h \<le> 2147483647) then Inl OverflowError
      else if \<not> (- 2147483648 \<le> m \<and> m \<le> 2147483647) then Inl OverflowError
      else if \<not> (0 \<le> h \<and> h \<le> 23) then Inl (ValueError ''hour must be in 0..23'')
      else if \<not> (0 \<le> m \<and> m \<le> 59) then Inl (ValueError ''minute must be in 0..59'')
      else Inr (d\<lparr>hour := h, minute := m, second := 0, microsecond := 0\<rparr>))"

text \<open>Dictionary subscription \<^verbatim>\<open>m[k]\<close>.\<close>

definition dict_get :: "(string \<rightharpoonup> int) \<Rightarrow> string \<Rightarrow> py_error + int" where
  "dict_get m k = (case m k of None \<Rightarrow> Inl (KeyError k) | Some v \<Rightarrow> Inr v)"

section \<open>The reminder schedule\<close>

text \<open>The body of the \<^verbatim>\<open>for\<close> loop of \<^verbatim>\<open>calculate_reminder_dates\<close> for one index \<open>i\<close>.\<close>

definition next_reminder :: "datetime \<Rightarrow> int \<Rightarrow> string \<Rightarrow> int \<Rightarrow> py_error + datetime" where
  "next_reminder first_reminder repeat_intervals repeat_unit i =
     (if repeat_unit = ''WEEK(S)'' then
        (case timedelta_weeks (i * repeat_intervals) of
           Inl e \<Rightarrow> Inl e | Inr t \<Rightarrow> dt_add first_reminder t)
      else if repeat_unit = ''DAY(S)'' then
        (case timedelta_days (i * repeat_intervals) of
           Inl e \<Rightarrow> Inl e | Inr t \<Rightarrow> dt_add first_reminder t)
      else if repeat_unit = ''HOUR(S)'' then
        (case timedelta_hours (i * repeat_intervals) of
           Inl e \<Rightarrow> Inl e | Inr t \<Rightarrow> dt_add first_reminder t)
      else Inl (ValueError (''Invalid repeat unit: '' @ repeat_unit)))"

text \<open>
  The loop \<^verbatim>\<open>for i in range(1, repeat_reminders + 1)\<close>, started at \<open>i\<close> with the list built
  so far.
\<close>

function repeat_loop ::
  "datetime \<Rightarrow> int \<Rightarrow> int \<Rightarrow> string \<Rightarrow> int \<Rightarrow> datetime list \<Rightarrow> py_error + datetime list" where
  "repeat_loop first_reminder repeat_reminders repeat_intervals repeat_unit i reminder_dates =
     (if i < repeat_reminders + 1 then
        (case next_reminder first_reminder repeat_intervals repeat_unit i of
           Inl e \<Rightarrow> Inl e
         | Inr n \<Rightarrow> repeat_loop first_reminder repeat_reminders repeat_intervals repeat_unit
                     (i + 1) (reminder_dates @ [n]))
      else Inr reminder_dates)"
  by pat_completeness auto
termination
  by (relation "measure (\<lambda>(f, rr, ri, ru, i, acc). nat (rr + 1 - i))") auto

declare repeat_loop.simps [simp del]

definition first_reminder_of :: "datetime \<Rightarrow> int \<Rightarrow> string \<Rightarrow> py_error + datetime" where
  "first_reminder_of end_date duration_prior reminder_unit =
     (if reminder_unit = ''WEEK(S)'' then
        (case timedelta_weeks duration_prior of Inl e \<Rightarrow> Inl e | Inr t \<Rightarrow> dt_sub end_date t)
      else if reminder_unit = ''DAY(S)'' then
        (case timedelta_days duration_prior of Inl e \<Rightarrow> Inl e | Inr t \<Rightarrow> dt_sub end_date t)
      else if reminder_unit = ''(HOUR(S))'' then
        (case timedelta_hours duration_prior of Inl e \<Rightarrow> Inl e | Inr t \<Rightarrow> dt_sub end_date t)
      else Inl (ValueError (''Invalid reminder unit: '' @ reminder_unit)))"

definition default_time :: "(string \<rightharpoonup> int) option \<Rightarrow> (string \<rightharpoonup> int)" where
  "default_time default_reminder_time =
     (case default_reminder_time of
        None \<Rightarrow> [''hour'' \<mapsto> 8, ''minute'' \<mapsto> 0]
      | Some m \<Rightarrow> m)"

text \<open>
  The value of \<^verbatim>\<open>first_reminder\<close> after the \<^verbatim>\<open>replace\<close> call: the default time is looked up
  (\<^verbatim>\<open>['hour']\<close> before \<^verbatim>\<open>['minute']\<close>) once the offset from the end date has been taken.
\<close>

definition first_reminder_normalized ::
  "datetime \<Rightarrow> int \<Rightarrow> string \<Rightarrow> (string \<rightharpoonup> int) option \<Rightarrow> py_error + datetime" where
  "first_reminder_normalized end_date duration_prior reminder_unit default_reminder_time =
     (let drt = default_time default_reminder_time in
      case first_reminder_of end_date duration_prior reminder_unit of
        Inl e \<Rightarrow> Inl e
      | Inr first0 \<Rightarrow>
         (case dict_get drt ''hour'' of
            Inl e \<Rightarrow> Inl e
          | Inr h \<Rightarrow>
             (case dict_get drt ''minute'' of
                Inl e \<Rightarrow> Inl e
              | Inr m \<Rightarrow> dt_replace_time first0 h m)))"

definition calculate_reminder_dates ::
  "datetime \<Rightarrow> int \<Rightarrow> string \<Rightarrow> int \<Rightarrow> int \<Rightarrow> string \<Rightarrow> (string \<rightharpoonup> int) option
     \<Rightarrow> py_error + datetime list" where
  "calculate_reminder_dates end_date duration_prior reminder_unit repeat_reminders
       repeat_intervals repeat_unit default_reminder_time =
     (case first_reminder_normalized end_date duration_prior reminder_unit
             default_reminder_time of
        Inl e \<Rightarrow> Inl e
      | Inr first_reminder \<Rightarrow>
          repeat_loop first_reminder repeat_reminders repeat_intervals repeat_unit 1
            [first_reminder])"

section \<open>The supply end date\<close>

subsection \<open>True division of integers and \<^verbatim>\<open>math.ceil\<close>\<close>

text \<open>
  \<^verbatim>\<open>total_supply / max_dosage\<close> is Python's true division of two integers: the quotient is
  rounded once, to the nearest binary64 number (ties to even).  A float is held as an integer
  mantissa and a binary exponent; its value is \<open>mant * 2 ^ expo\<close>.
\<close>

record py_float =
  mant :: int
  expo :: int

text \<open>The quotient \<open>n / d\<close> of a natural number by a positive one, rounded to an integer.\<close>

definition round_half_even :: "int \<Rightarrow> int \<Rightarrow> int" where
  "round_half_even n d =
     (let q = n div d; r = n mod d
      in if 2 * r < d then q
         else if d < 2 * r then q + 1
         else if even q then q else q + 1)"

text \<open>
  For \<open>x, y > 0\<close> the number \<open>e\<close> with \<open>2 ^ e \<le> x / y < 2 ^ (e + 1)\<close>; the bit lengths give it up
  to one.
\<close>

definition quotient_exponent :: "int \<Rightarrow> int \<Rightarrow> int" where
  "quotient_exponent x y =
     (let k = bitlen x - bitlen y
      in if y * 2 ^ nat k \<le> x * 2 ^ nat (- k) then k else k - 1)"

text \<open>
  The division raises \<^verbatim>\<open>ZeroDivisionError\<close> for a zero divisor and \<^verbatim>\<open>OverflowError\<close> when the
  rounded quotient reaches \<open>2 ^ 1024\<close>.  The mantissa has 53 bits for a normal result; below
  \<open>2 ^ -1022\<close> the spacing stays \<open>2 ^ -1074\<close>.
\<close>

definition int_truediv :: "int \<Rightarrow> int \<Rightarrow> py_error + py_float" where
  "int_truediv a b =
     (if b = 0 then Inl ZeroDivisionError
      else if a = 0 then Inr \<lparr>mant = 0, expo = 0\<rparr>
      else
        (let x = \<bar>a\<bar>; y = \<bar>b\<bar>;
             e = quotient_exponent x y;
             p = max e (- 1022) - 52;
             m = round_half_even (x * 2 ^ nat (- p)) (y * 2 ^ nat p)
         in if 971 < p \<or> (p = 971 \<and> m = 2 ^ 53) then Inl OverflowError
            else Inr \<lparr>mant = (if (a < 0) = (b < 0) then m else - m), expo = p\<rparr>))"

definition math_ceil :: "py_float \<Rightarrow> int" where
  "math_ceil f =
     (if 0 \<le> expo f then mant f * 2 ^ nat (expo f)
      else - ((- mant f) div 2 ^ nat (- expo f)))"

subsection \<open>\<^verbatim>\<open>calculate_end_date\<close>\<close>

text \<open>
  The anchor \<^verbatim>\<open>base_date\<close>: a datetime object is always true, so the test on
  \<^verbatim>\<open>start_time\<close> is a test for \<^verbatim>\<open>None\<close>.
\<close>

definition base_date :: "datetime \<Rightarrow> string \<Rightarrow> datetime option \<Rightarrow> datetime" where
  "base_date start_date dosage_frequency start_time =
     (if dosage_frequency = ''HOUR(S)'' then
        (case start_time of Some t \<Rightarrow> t | None \<Rightarrow> start_date)
      else start_date)"

text \<open>The number \<^verbatim>\<open>additional_doses\<close> of doses after the first.\<close>

definition additional_doses :: "int \<Rightarrow> int \<Rightarrow> py_error + int" where
  "additional_doses total_supply max_dosage =
     (case int_truediv total_supply max_dosage of
        Inl e \<Rightarrow> Inl e
      | Inr q \<Rightarrow> (let doses = math_ceil q in Inr (if doses > 0 then doses - 1 else 0)))"

definition calculate_end_date ::
  "datetime \<Rightarrow> int \<Rightarrow> string \<Rightarrow> int \<Rightarrow> int \<Rightarrow> datetime option \<Rightarrow> py_error + datetime" where
  "calculate_end_date start_date max_dosage dosage_frequency total_supply dosage_interval
       start_time =
     (let base = base_date start_date dosage_frequency start_time in
      case additional_doses total_supply max_dosage of
        Inl e \<Rightarrow> Inl e
      | Inr n \<Rightarrow>
         (if dosage_frequency = ''HOUR(S)'' then
            (case timedelta_hours (n * dosage_interval) of
               Inl e \<Rightarrow> Inl e | Inr t \<Rightarrow> dt_add base t)
          else if dosage_frequency = ''DAY(S)'' then
            (case timedelta_days (n * dosage_interval) of
               Inl e \<Rightarrow> Inl e | Inr t \<Rightarrow> dt_add base t)
          else if dosage_frequency = ''WEEK(S)'' then
            (case timedelta_weeks (n * dosage_interval) of
               Inl e \<Rightarrow> Inl e | Inr t \<Rightarrow> dt_add base t)
          else Inl (ValueError (''Invalid dosage frequency: '' @ dosage_frequency))))"

section \<open>Time as a count of microseconds\<close>

text \<open>
  The position of a datetime on the time line, in microseconds since the start of day 0, and
  the length of a timedelta in microseconds.  A day has 86400 seconds, an hour 3600 seconds and
  a week 7 days, with no calendar adjustment.
\<close>

definition dt_to_us :: "datetime \<Rightarrow> int" where
  "dt_to_us d =
     (ordinal d * 86400 + hour d * 3600 + minute d * 60 + second d) * 1000000 + microsecond d"

definition td_to_us :: "timedelta \<Rightarrow> int" where
  "td_to_us t = (days t * 86400 + seconds t) * 1000000 + microseconds t"

definition unit_us :: "string \<Rightarrow> int" where
  "unit_us u =
     (if u = ''HOUR(S)'' then 3600000000
      else if u = ''DAY(S)'' then 86400000000
      else if u = ''WEEK(S)'' then 604800000000
      else 0)"

section \<open>The text form of a schedule\<close>

subsection \<open>The calendar\<close>

text \<open>
  The conversion between ordinals and (year, month, day), as the \<^verbatim>\<open>datetime\<close> module computes
  it; \<open>//\<close> and \<open>%\<close> are \<open>div\<close> and \<open>mod\<close> on \<^typ>\<open>int\<close>.
\<close>

definition DAYS_IN_MONTH :: "int list" where
  "DAYS_IN_MONTH = [- 1, 31, 28, 31, 30, 31, 30, 31, 31, 30, 31, 30, 31]"

definition DAYS_BEFORE_MONTH :: "int list" where
  "DAYS_BEFORE_MONTH = [- 1, 0, 31, 59, 90, 120, 151, 181, 212, 243, 273, 304, 334]"

definition is_leap :: "int \<Rightarrow> bool" where
  "is_leap year \<longleftrightarrow> year mod 4 = 0 \<and> (year mod 100 \<noteq> 0 \<or> year mod 400 = 0)"

definition days_before_year :: "int \<Rightarrow> int" where
  "days_before_year year = (let y = year - 1 in y * 365 + y div 4 - y div 100 + y div 400)"

definition days_in_month :: "int \<Rightarrow> int \<Rightarrow> int" where
  "days_in_month year month =
     (if month = 2 \<and> is_leap year then 29 else DAYS_IN_MONTH ! nat month)"

definition days_before_month :: "int \<Rightarrow> int \<Rightarrow> int" where
  "days_before_month year month =
     DAYS_BEFORE_MONTH ! nat month + (if month > 2 \<and> is_leap year then 1 else 0)"

definition ymd2ord :: "int \<Rightarrow> int \<Rightarrow> int \<Rightarrow> int" where
  "ymd2ord year month day = days_before_year year + days_before_month year month + day"

text \<open>The month and the day of the month of day \<open>n\<close> (from 0) of a year.\<close>

definition month_day :: "bool \<Rightarrow> int \<Rightarrow> int \<times> int" where
  "month_day leapyear n =
     (let month = (n + 50) div 32;
          preceding = DAYS_BEFORE_MONTH ! nat month
            + (if month > 2 \<and> leapyear then 1 else 0)
      in if preceding > n then
           (month - 1,
            n - (preceding - (DAYS_IN_MONTH ! nat (month - 1)
               + (if month - 1 = 2 \<and> leapyear then 1 else 0))) + 1)
         else (month, n - preceding + 1))"

definition ord2ymd :: "int \<Rightarrow> int \<times> int \<times> int" where
  "ord2ymd ord =
     (let n = ord - 1;
          n400 = n div 146097; na = n mod 146097;
          n100 = na div 36524; nb = na mod 36524;
          n4 = nb div 1461; nc = nb mod 1461;
          n1 = nc div 365; nd = nc mod 365;
          year = n400 * 400 + 1 + n100 * 100 + n4 * 4 + n1
      in if n1 = 4 \<or> n100 = 4 then (year - 1, 12, 31)
         else
           (let leapyear = (n1 = 3 \<and> (n4 \<noteq> 24 \<or> n100 = 3))
            in case month_day leapyear nd of (month, day) \<Rightarrow> (year, month, day)))"

subsection \<open>\<^verbatim>\<open>isoformat\<close> and \<^verbatim>\<open>fromisoformat\<close>\<close>

definition digit_char :: "nat \<Rightarrow> char" where
  "digit_char k = char_of (48 + k)"

definition is_digit :: "char \<Rightarrow> bool" where
  "is_digit c \<longleftrightarrow> (48::nat) \<le> of_char c \<and> (of_char c :: nat) \<le> 57"

definition digit_val :: "char \<Rightarrow> nat" where
  "digit_val c = of_char c - 48"

text \<open>The \<open>w\<close> low-order decimal digits of \<open>n\<close>.\<close>

primrec digits_w :: "nat \<Rightarrow> nat \<Rightarrow> string" where
  "digits_w 0 n = []"
| "digits_w (Suc w) n = digits_w w (n div 10) @ [digit_char (n mod 10)]"

text \<open>
  The conversion \<^verbatim>\<open>%0wd\<close>: at least \<open>w\<close> characters, padded with zeros; a negative number
  takes one of them for its sign.
\<close>

definition fmt :: "nat \<Rightarrow> int \<Rightarrow> string" where
  "fmt w n =
     (if n < 0 then CHR ''-'' # digits_w (max (w - 1) (floorlog 10 (nat (- n)))) (nat (- n))
      else digits_w (max w (floorlog 10 (nat n))) (nat n))"

definition isoformat :: "datetime \<Rightarrow> string" where
  "isoformat d =
     (case ord2ymd (ordinal d) of (y, m, dd) \<Rightarrow>
        fmt 4 y @ ''-'' @ fmt 2 m @ ''-'' @ fmt 2 dd @ ''T'' @
        fmt 2 (hour d) @ '':'' @ fmt 2 (minute d) @ '':'' @ fmt 2 (second d) @
        (if microsecond d \<noteq> 0 then ''.'' @ fmt 6 (microsecond d) else []))"

text \<open>A run of decimal digits, read from the left.\<close>

primrec parse_digits :: "nat \<Rightarrow> string \<Rightarrow> nat option" where
  "parse_digits a [] = Some a"
| "parse_digits a (c # cs) =
     (if is_digit c then parse_digits (10 * a + digit_val c) cs else None)"

text \<open>
  The constructor \<^verbatim>\<open>datetime(year, month, day, hour, minute, second, microsecond)\<close> with its
  range checks.
\<close>

definition datetime_new ::
  "int \<Rightarrow> int \<Rightarrow> int \<Rightarrow> int \<Rightarrow> int \<Rightarrow> int \<Rightarrow> int \<Rightarrow> py_error + datetime" where
  "datetime_new y m dd h mi s us =
     (if \<not> (1 \<le> y \<and> y \<le> 9999) then Inl (ValueError ''year is out of range'')
      else if \<not> (1 \<le> m \<and> m \<le> 12) then Inl (ValueError ''month must be in 1..12'')
      else if \<not> (1 \<le> dd \<and> dd \<le> days_in_month y m)
        then Inl (ValueError ''day is out of range for month'')
      else if \<not> (0 \<le> h \<and> h \<le> 23) then Inl (ValueError ''hour must be in 0..23'')
      else if \<not> (0 \<le> mi \<and> mi \<le> 59) then Inl (ValueError ''minute must be in 0..59'')
      else if \<not> (0 \<le> s \<and> s \<le> 59) then Inl (ValueError ''second must be in 0..59'')
      else if \<not> (0 \<le> us \<and> us \<le> 999999)
        then Inl (ValueError ''microsecond must be in 0..999999'')
      else Inr \<lparr>ordinal = ymd2ord y m dd, hour = h, minute = mi, second = s,
                microsecond = us\<rparr>)"

text \<open>
  \<^verbatim>\<open>datetime.fromisoformat\<close> on the two forms that \<^verbatim>\<open>isoformat\<close> writes for a naive datetime,
  \<^verbatim>\<open>YYYY-MM-DDTHH:MM:SS\<close> and \<^verbatim>\<open>YYYY-MM-DDTHH:MM:SS.ffffff\<close>, with any character as the
  separator of date and time.  Other strings are outside this model of the parser and are
  reported as invalid.
\<close>

definition fromisoformat :: "string \<Rightarrow> py_error + datetime" where
  "fromisoformat s =
     (if (length s = 19 \<or> (length s = 26 \<and> s ! 19 = CHR ''.'')) \<and>
         s ! 4 = CHR ''-'' \<and> s ! 7 = CHR ''-'' \<and> s ! 13 = CHR '':'' \<and> s ! 16 = CHR '':''
      then
        (case (parse_digits 0 (take 4 s), parse_digits 0 (take 2 (drop 5 s)),
               parse_digits 0 (take 2 (drop 8 s)), parse_digits 0 (take 2 (drop 11 s)),
               parse_digits 0 (take 2 (drop 14 s)), parse_digits 0 (take 2 (drop 17 s)),
               parse_digits 0 (drop 20 s)) of
           (Some y, Some m, Some dd, Some h, Some mi, Some sec, Some us) \<Rightarrow>
             datetime_new (int y) (int m) (int dd) (int h) (int mi) (int sec) (int us)
         | _ \<Rightarrow> Inl (ValueError (''Invalid isoformat string: '' @ s)))
      else Inl (ValueError (''Invalid isoformat string: '' @ s)))"

subsection \<open>Serialization of a schedule\<close>

definition serialize_reminder_dates :: "datetime list \<Rightarrow> string list" where
  "serialize_reminder_dates reminder_dates = map isoformat reminder_dates"

text \<open>The list comprehension stops at the first string that fails to parse.\<close>

primrec deserialize_reminder_dates :: "string list \<Rightarrow> py_error + datetime list" where
  "deserialize_reminder_dates [] = Inr []"
| "deserialize_reminder_dates (date_str # rest) =
     (case fromisoformat date_str of
        Inl e \<Rightarrow> Inl e
      | Inr d \<Rightarrow>
         (case deserialize_reminder_dates rest of
            Inl e \<Rightarrow> Inl e
          | Inr ds \<Rightarrow> Inr (d # ds)))"

section \<open>Processing a medication record\<close>

text \<open>
  The \<^verbatim>\<open>Medication\<close> objects of \<^verbatim>\<open>backend/database/models.py\<close>.  They are mutable and passed by
  reference, so they live in a store; \<open>end_date\<close> and \<open>reminder_dates\<close> may still be unset.
\<close>

record medication =
  id' :: int
  user_id :: int
  med_name :: string
  icon :: int
  color :: int
  details :: "string option"
  max_dosage :: int
  dosage_interval :: int
  dosage_frequency :: string
  total_supply :: int
  start_date :: datetime
  start_time :: "datetime option"
  end_date :: "datetime option"
  duration_prior :: int
  reminder_unit :: string
  repeat_reminders :: int
  repeat_intervals :: int
  repeat_unit :: string
  reminder_dates :: "string list option"
  created_at :: "datetime option"

type_synonym ref = nat

type_synonym store = "ref \<rightharpoonup> medication"

text \<open>The dictionary that \<^verbatim>\<open>process_medication_reminders\<close> returns, by its three keys.\<close>

record processed =
  out_medication :: ref
  out_end_date :: datetime
  out_reminder_dates :: "datetime list"

text \<open>
  \<^verbatim>\<open>process_medication_reminders\<close>: the end date is written to the object before the schedule
  is computed, so an exception of \<^verbatim>\<open>calculate_reminder_dates\<close> leaves the object with its new
  end date.  A reference to no object is reported as \<^verbatim>\<open>AttributeError\<close>.
\<close>

definition process_medication_reminders ::
  "ref \<Rightarrow> (string \<rightharpoonup> int) option \<Rightarrow> store \<Rightarrow> (py_error + processed) \<times> store" where
  "process_medication_reminders r default_reminder_time h =
     (case h r of
        None \<Rightarrow> (Inl AttributeError, h)
      | Some med \<Rightarrow>
         (case calculate_end_date (start_date med) (max_dosage med) (dosage_frequency med)
                 (total_supply med) (dosage_interval med) (start_time med) of
            Inl e \<Rightarrow> (Inl e, h)
          | Inr ed \<Rightarrow>
             (let med1 = med\<lparr>end_date := Some ed\<rparr>;
                  h1 = h(r \<mapsto> med1)
              in case calculate_reminder_dates ed (duration_prior med1) (reminder_unit med1)
                        (repeat_reminders med1) (repeat_intervals med1) (repeat_unit med1)
                        default_reminder_time of
                   Inl e \<Rightarrow> (Inl e, h1)
                 | Inr rds \<Rightarrow>
                    (let serialized = serialize_reminder_dates rds;
                         med2 = med1\<lparr>reminder_dates := Some serialized\<rparr>;
                         h2 = h1(r \<mapsto> med2)
                     in (Inr \<lparr>out_medication = r, out_end_date = ed,
                               out_reminder_dates = rds\<rparr>, h2)))))"

section \<open>Properties of the library operations\<close>

lemma dt_add_InrD:
  assumes "dt_add d t = Inr d'"
  obtains us s where "us = microsecond d + microseconds t"
    "s = hour d * 3600 + minute d * 60 + second d + seconds t + us div 1000000"
    "0 < ordinal d + days t + s div 86400" "ordinal d + days t + s div 86400 \<le> MAXORDINAL"
    "d' = \<lparr>ordinal = ordinal d + days t + s div 86400, hour = s mod 86400 div 3600,
       minute = (s mod 86400 mod 3600) div 60, second = s mod 86400 mod 60,
       microsecond = us mod 1000000\<rparr>"
proof -
  define us where "us = microsecond d + microseconds t"
  define s where "s = hour d * 3600 + minute d * 60 + second d + seconds t + us div 1000000"
  define dd where "dd = ordinal d + days t + s div 86400"
  define X where "X = \<lparr>ordinal = dd, hour = s mod 86400 div 3600,
       minute = (s mod 86400 mod 3600) div 60, second = s mod 86400 mod 60,
       microsecond = us mod 1000000\<rparr>"
  have eq: "dt_add d t = (if 0 < dd \<and> dd \<le> MAXORDINAL then Inr X else Inl OverflowError)"
    unfolding dt_add_def Let_def X_def dd_def s_def us_def ..
  have c: "0 < dd \<and> dd \<le> MAXORDINAL"
  proof (rule ccontr)
    assume "\<not> ?thesis"
    then have "dt_add d t = Inl OverflowError" unfolding eq by (rule if_not_P)
    with assms show False by simp
  qed
  then have "dt_add d t = Inr X" unfolding eq by (rule if_P)
  with assms have "d' = X" by simp
  with c that [OF us_def s_def] show thesis unfolding X_def dd_def by blast
qed

lemma hms_recompose: "(r::int) div 3600 * 3600 + (r mod 3600) div 60 * 60 + r mod 60 = r"
proof -
  have "r mod 60 = (r mod 3600) mod 60"
    by (simp add: mod_mod_cancel)
  then show ?thesis
    by (metis add.assoc add.commute div_mult_mod_eq)
qed

lemma hms_bounds:
  fixes r :: int
  assumes "0 \<le> r" "r < 86400"
  shows "0 \<le> r div 3600" "r div 3600 < 24" "0 \<le> r mod 3600 div 60" "r mod 3600 div 60 < 60"
    "0 \<le> r mod 60" "r mod 60 < 60"
proof -
  show "0 \<le> r div 3600" using assms by (simp add: pos_imp_zdiv_nonneg_iff)
  from assms have "r \<le> 86399" by simp
  then have "r div 3600 \<le> 86399 div 3600" by (rule zdiv_mono1) simp
  then show "r div 3600 < 24" by simp
  show "0 \<le> r mod 3600 div 60" by (simp add: pos_imp_zdiv_nonneg_iff)
  have "r mod 3600 < 3600" by simp
  then have "r mod 3600 \<le> 3599" by linarith
  then have "r mod 3600 div 60 \<le> 3599 div 60" by (rule zdiv_mono1) simp
  then show "r mod 3600 div 60 < 60" by simp
  show "0 \<le> r mod 60" "r mod 60 < 60" by simp_all
qed

lemma dt_add_valid: "dt_add d t = Inr d' \<Longrightarrow> valid_datetime d'"
proof -
  assume a: "dt_add d t = Inr d'"
  from a obtain us s where
    rng: "0 < ordinal d + days t + s div 86400" "ordinal d + days t + s div 86400 \<le> MAXORDINAL"
    and d': "d' = \<lparr>ordinal = ordinal d + days t + s div 86400, hour = s mod 86400 div 3600,
       minute = (s mod 86400 mod 3600) div 60, second = s mod 86400 mod 60,
       microsecond = us mod 1000000\<rparr>"
    by (rule dt_add_InrD)
  define r where "r = s mod 86400"
  define dd where "dd = ordinal d + days t + s div 86400"
  define u where "u = us mod 1000000"
  have r: "0 \<le> r" "r < 86400" by (simp_all add: r_def)
  have u: "0 \<le> u" "u < 1000000" by (simp_all add: u_def)
  have dd: "1 \<le> dd" "dd \<le> MAXORDINAL" using rng by (simp_all add: dd_def)
  have e: "d' = \<lparr>ordinal = dd, hour = r div 3600, minute = r mod 3600 div 60,
       second = r mod 60, microsecond = u\<rparr>"
    unfolding d' dd_def r_def u_def ..
  have f: "ordinal d' = dd" "hour d' = r div 3600" "minute d' = r mod 3600 div 60"
    "second d' = r mod 60" "microsecond d' = u"
    unfolding e by simp_all
  show ?thesis
    unfolding valid_datetime_def f using dd u hms_bounds [OF r] by blast
qed

lemma dt_add_raw_us:
  assumes us: "us = microsecond d + microseconds t"
    and s: "s = hour d * 3600 + minute d * 60 + second d + seconds t + us div 1000000"
  shows "dt_to_us \<lparr>ordinal = ordinal d + days t + s div 86400, hour = s mod 86400 div 3600,
       minute = (s mod 86400 mod 3600) div 60, second = s mod 86400 mod 60,
       microsecond = us mod 1000000\<rparr> = dt_to_us d + td_to_us t"
proof -
  define r where "r = s mod 86400"
  define q where "q = s div 86400"
  define u where "u = us mod 1000000"
  define c where "c = us div 1000000"
  define H where "H = r div 3600"
  define M where "M = r mod 3600 div 60"
  define S where "S = r mod 60"
  define d' where "d' = \<lparr>ordinal = ordinal d + days t + q, hour = H, minute = M,
       second = S, microsecond = u\<rparr>"
  have hms: "H * 3600 + M * 60 + S = r"
    unfolding H_def M_def S_def by (rule hms_recompose)
  have qr: "q * 86400 + r = s" unfolding q_def r_def by simp
  have cu: "c * 1000000 + u = us" unfolding c_def u_def by simp
  have s': "s = hour d * 3600 + minute d * 60 + second d + seconds t + c"
    unfolding s c_def ..
  have "dt_to_us d' = ((ordinal d + days t + q) * 86400 + (H * 3600 + M * 60 + S)) * 1000000 + u"
    unfolding dt_to_us_def d'_def by simp
  also have "\<dots> = ((ordinal d + days t) * 86400 + (q * 86400 + r)) * 1000000 + u"
    unfolding hms by (simp add: algebra_simps)
  also have "\<dots> = ((ordinal d + days t) * 86400 + hour d * 3600 + minute d * 60 + second d
       + seconds t) * 1000000 + (c * 1000000 + u)"
    unfolding qr s' by (simp add: algebra_simps)
  also have "\<dots> = dt_to_us d + td_to_us t"
    unfolding cu us dt_to_us_def td_to_us_def by (simp add: algebra_simps)
  finally show ?thesis unfolding d'_def q_def r_def u_def H_def M_def S_def .
qed

lemma dt_add_us: "dt_add d t = Inr d' \<Longrightarrow> dt_to_us d' = dt_to_us d + td_to_us t"
proof -
  assume a: "dt_add d t = Inr d'"
  from a obtain us s where us: "us = microsecond d + microseconds t"
    and s: "s = hour d * 3600 + minute d * 60 + second d + seconds t + us div 1000000"
    and d': "d' = \<lparr>ordinal = ordinal d + days t + s div 86400, hour = s mod 86400 div 3600,
       minute = (s mod 86400 mod 3600) div 60, second = s mod 86400 mod 60,
       microsecond = us mod 1000000\<rparr>"
    by (rule dt_add_InrD)
  show ?thesis unfolding d' using us s by (rule dt_add_raw_us)
qed

lemma dt_add_cases:
  obtains d' where
    "dt_add d t = (if 0 < ordinal d' \<and> ordinal d' \<le> MAXORDINAL then Inr d' else Inl OverflowError)"
    "dt_to_us d' = dt_to_us d + td_to_us t"
    "0 \<le> hour d'" "hour d' < 24" "0 \<le> minute d'" "minute d' < 60"
    "0 \<le> second d'" "second d' < 60" "0 \<le> microsecond d'" "microsecond d' < 1000000"
proof -
  define us where "us = microsecond d + microseconds t"
  define s where "s = hour d * 3600 + minute d * 60 + second d + seconds t + us div 1000000"
  define X where "X = \<lparr>ordinal = ordinal d + days t + s div 86400,
       hour = s mod 86400 div 3600,
       minute = (s mod 86400 mod 3600) div 60, second = s mod 86400 mod 60,
       microsecond = us mod 1000000\<rparr>"
  have f: "ordinal X = ordinal d + days t + s div 86400" "hour X = s mod 86400 div 3600"
    "minute X = s mod 86400 mod 3600 div 60" "second X = s mod 86400 mod 60"
    "microsecond X = us mod 1000000"
    unfolding X_def by simp_all
  have eq: "dt_add d t =
      (if 0 < ordinal X \<and> ordinal X \<le> MAXORDINAL then Inr X else Inl OverflowError)"
    unfolding f unfolding dt_add_def Let_def X_def s_def us_def ..
  have u: "dt_to_us X = dt_to_us d + td_to_us t"
    unfolding X_def using us_def s_def by (rule dt_add_raw_us)
  have r: "0 \<le> s mod 86400" "s mod 86400 < 86400" by simp_all
  note b = hms_bounds [OF r]
  have b1: "0 \<le> hour X" unfolding f by (rule b(1))
  have b2: "hour X < 24" unfolding f by (rule b(2))
  have b3: "0 \<le> minute X" unfolding f by (rule b(3))
  have b4: "minute X < 60" unfolding f by (rule b(4))
  have b5: "0 \<le> second X" unfolding f by (rule b(5))
  have b6: "second X < 60" unfolding f by (rule b(6))
  have b7: "0 \<le> microsecond X" unfolding f by simp
  have b8: "microsecond X < 1000000" unfolding f by simp
  show thesis by (rule that [OF eq u b1 b2 b3 b4 b5 b6 b7 b8])
qed

lemma timedelta_new_us: "timedelta_new d s us = Inr t \<Longrightarrow>
   td_to_us t = (d * 86400 + s) * 1000000 + us"
proof -
  assume a: "timedelta_new d s us = Inr t"
  define s1 where "s1 = s + us div 1000000"
  from a have t: "t = \<lparr>days = d + s1 div 86400, seconds = s1 mod 86400,
      microseconds = us mod 1000000\<rparr>"
    unfolding timedelta_new_def Let_def s1_def by (auto split: if_splits)
  have "td_to_us t = (d * 86400 + (s1 div 86400 * 86400 + s1 mod 86400)) * 1000000
       + us mod 1000000"
    by (simp add: t td_to_us_def algebra_simps)
  also have "s1 div 86400 * 86400 + s1 mod 86400 = s1" by simp
  also have "(d * 86400 + s1) * 1000000 + us mod 1000000 =
     (d * 86400 + s) * 1000000 + (us div 1000000 * 1000000 + us mod 1000000)"
    by (simp add: s1_def algebra_simps)
  also have "us div 1000000 * 1000000 + us mod 1000000 = us" by simp
  finally show ?thesis .
qed

lemma timedelta_hours_us: "timedelta_hours n = Inr t \<Longrightarrow> td_to_us t = n * 3600000000"
  unfolding timedelta_hours_def by (drule timedelta_new_us) simp

lemma timedelta_days_us: "timedelta_days n = Inr t \<Longrightarrow> td_to_us t = n * 86400000000"
  unfolding timedelta_days_def by (drule timedelta_new_us) simp

lemma timedelta_weeks_us: "timedelta_weeks n = Inr t \<Longrightarrow> td_to_us t = n * 604800000000"
  unfolding timedelta_weeks_def by (drule timedelta_new_us) simp

lemma next_reminder_us:
  "next_reminder fr ri ru i = Inr d \<Longrightarrow> dt_to_us d = dt_to_us fr + i * ri * unit_us ru"
  unfolding next_reminder_def unit_us_def
  by (auto split: if_splits sum.splits
      dest!: dt_add_us timedelta_hours_us timedelta_days_us timedelta_weeks_us)

lemma next_reminder_valid:
  "next_reminder fr ri ru i = Inr d \<Longrightarrow> valid_datetime d"
  unfolding next_reminder_def
  by (auto split: if_splits sum.splits dest: dt_add_valid)

lemma next_reminder_unit:
  "next_reminder fr ri ru i = Inr d \<Longrightarrow> ru \<in> {''WEEK(S)'', ''DAY(S)'', ''HOUR(S)''}"
  unfolding next_reminder_def by (auto split: if_splits)

lemma lex_step:
  fixes a b x y m :: int
  assumes "0 \<le> x" "x < m" "0 \<le> y" "y < m"
  shows "a * m + x < b * m + y \<longleftrightarrow> a < b \<or> (a = b \<and> x < y)"
proof (cases "a < b")
  case True
  then have "a + 1 \<le> b" by simp
  moreover from assms have "0 \<le> m" by simp
  ultimately have "(a + 1) * m \<le> b * m" by (rule mult_right_mono)
  with assms True show ?thesis by (simp add: algebra_simps)
next
  case False
  show ?thesis
  proof (cases "a = b")
    case True then show ?thesis by simp
  next
    case ne: False
    with False have "b + 1 \<le> a" by simp
    moreover from assms have "0 \<le> m" by simp
    ultimately have "(b + 1) * m \<le> a * m" by (rule mult_right_mono)
    with assms False ne show ?thesis by (simp add: algebra_simps)
  qed
qed

lemma lex_eq:
  fixes a b x y m :: int
  assumes "0 \<le> x" "x < m" "0 \<le> y" "y < m"
  shows "a * m + x = b * m + y \<longleftrightarrow> a = b \<and> x = y"
proof
  assume e: "a * m + x = b * m + y"
  have "\<not> (a * m + x < b * m + y)" "\<not> (b * m + y < a * m + x)" using e by simp_all
  with lex_step [OF assms, of a b] lex_step [OF assms(3,4,1,2), of b a]
  show "a = b \<and> x = y" by auto
qed simp

lemma dt_less_iff_us:
  assumes "valid_datetime a" "valid_datetime b"
  shows "dt_less a b \<longleftrightarrow> dt_to_us a < dt_to_us b"
proof -
  define sa where "sa = hour a * 3600 + minute a * 60 + second a"
  define sb where "sb = hour b * 3600 + minute b * 60 + second b"
  define ma where "ma = minute a * 60 + second a"
  define mb where "mb = minute b * 60 + second b"
  from assms have bnd: "0 \<le> sa" "sa < 86400" "0 \<le> sb" "sb < 86400"
    "0 \<le> ma" "ma < 3600" "0 \<le> mb" "mb < 3600"
    "0 \<le> second a" "second a < 60" "0 \<le> second b" "second b < 60"
    "0 \<le> microsecond a" "microsecond a < 1000000"
    "0 \<le> microsecond b" "microsecond b < 1000000"
    unfolding valid_datetime_def sa_def sb_def ma_def mb_def by auto
  have ua: "dt_to_us a = (ordinal a * 86400 + sa) * 1000000 + microsecond a"
    and ub: "dt_to_us b = (ordinal b * 86400 + sb) * 1000000 + microsecond b"
    by (simp_all add: dt_to_us_def sa_def sb_def)
  have sa': "sa = hour a * 3600 + ma" and sb': "sb = hour b * 3600 + mb"
    by (simp_all add: sa_def sb_def ma_def mb_def)
  have 1: "dt_to_us a < dt_to_us b \<longleftrightarrow>
      ordinal a * 86400 + sa < ordinal b * 86400 + sb \<or>
      (ordinal a * 86400 + sa = ordinal b * 86400 + sb \<and> microsecond a < microsecond b)"
    unfolding ua ub using bnd by (intro lex_step) auto
  have 2: "ordinal a * 86400 + sa < ordinal b * 86400 + sb \<longleftrightarrow>
      ordinal a < ordinal b \<or> (ordinal a = ordinal b \<and> sa < sb)"
    using bnd by (intro lex_step) auto
  have 3: "ordinal a * 86400 + sa = ordinal b * 86400 + sb \<longleftrightarrow>
      ordinal a = ordinal b \<and> sa = sb"
    using bnd by (intro lex_eq) auto
  have 4: "sa < sb \<longleftrightarrow> hour a < hour b \<or> (hour a = hour b \<and> ma < mb)"
    unfolding sa' sb' using bnd by (intro lex_step) auto
  have 5: "sa = sb \<longleftrightarrow> hour a = hour b \<and> ma = mb"
    unfolding sa' sb' using bnd by (intro lex_eq) auto
  have 6: "ma < mb \<longleftrightarrow> minute a < minute b \<or> (minute a = minute b \<and> second a < second b)"
    unfolding ma_def mb_def using bnd by (intro lex_step) auto
  have 7: "ma = mb \<longleftrightarrow> minute a = minute b \<and> second a = second b"
    unfolding ma_def mb_def using bnd by (intro lex_eq) auto
  show ?thesis unfolding dt_less_def 1 2 3 4 5 6 7 by blast
qed

section \<open>Properties of the reminder schedule\<close>

lemma repeat_loop_shape:
  "repeat_loop f rr ri ru i acc = Inr s \<Longrightarrow>
     \<exists>ns. s = acc @ ns \<and> length ns = nat (rr + 1 - i) \<and>
          (\<forall>k < length ns. next_reminder f ri ru (i + int k) = Inr (ns ! k))"
proof (induction f rr ri ru i acc arbitrary: s rule: repeat_loop.induct)
  case (1 f rr ri ru i acc)
  show ?case
  proof (cases "i < rr + 1")
    case False
    with "1.prems" show ?thesis by (simp add: repeat_loop.simps)
  next
    case True
    from True "1.prems" obtain n where n: "next_reminder f ri ru i = Inr n"
      and rec: "repeat_loop f rr ri ru (i + 1) (acc @ [n]) = Inr s"
      by (auto simp: repeat_loop.simps [of f rr ri ru i acc] split: sum.splits)
    from "1.IH" [OF True n rec] obtain ns where ns: "s = (acc @ [n]) @ ns"
      "length ns = nat (rr + 1 - (i + 1))"
      "\<forall>k < length ns. next_reminder f ri ru (i + 1 + int k) = Inr (ns ! k)"
      by blast
    have len: "length (n # ns) = nat (rr + 1 - i)" using ns(2) True by simp
    have "\<forall>k < length (n # ns). next_reminder f ri ru (i + int k) = Inr ((n # ns) ! k)"
    proof (intro allI impI)
      fix k assume "k < length (n # ns)"
      show "next_reminder f ri ru (i + int k) = Inr ((n # ns) ! k)"
      proof (cases k)
        case 0 then show ?thesis using n by simp
      next
        case (Suc j)
        with \<open>k < length (n # ns)\<close> have "j < length ns" by simp
        with ns(3) have "next_reminder f ri ru (i + 1 + int j) = Inr (ns ! j)" by blast
        moreover have "i + 1 + int j = i + int k" using Suc by simp
        ultimately show ?thesis using Suc by simp
      qed
    qed
    with ns(1) len show ?thesis by (intro exI [of _ "n # ns"]) simp
  qed
qed

lemma calculate_reminder_dates_InrD:
  assumes "calculate_reminder_dates e dp ru rr ri rpu drt = Inr s"
  obtains fr ns where "first_reminder_normalized e dp ru drt = Inr fr"
    "s = fr # ns" "length ns = nat rr"
    "\<forall>k < length ns. next_reminder fr ri rpu (1 + int k) = Inr (ns ! k)"
proof -
  from assms obtain fr where fr: "first_reminder_normalized e dp ru drt = Inr fr"
    and l: "repeat_loop fr rr ri rpu 1 [fr] = Inr s"
    unfolding calculate_reminder_dates_def by (auto split: sum.splits)
  from repeat_loop_shape [OF l] obtain ns where "s = [fr] @ ns" "length ns = nat (rr + 1 - 1)"
    "\<forall>k < length ns. next_reminder fr ri rpu (1 + int k) = Inr (ns ! k)" by blast
  with fr that show thesis by simp
qed

lemma first_reminder_normalized_InrD:
  assumes "first_reminder_normalized e dp ru drt = Inr fr"
  obtains first0 h m where "first_reminder_of e dp ru = Inr first0"
    "dict_get (default_time drt) ''hour'' = Inr h"
    "dict_get (default_time drt) ''minute'' = Inr m"
    "0 \<le> h" "h \<le> 23" "0 \<le> m" "m \<le> 59"
    "fr = first0\<lparr>hour := h, minute := m, second := 0, microsecond := 0\<rparr>"
  using assms unfolding first_reminder_normalized_def Let_def dt_replace_time_def
  by (auto split: sum.splits if_splits)

lemma first_reminder_of_valid:
  "first_reminder_of e dp ru = Inr first0 \<Longrightarrow> valid_datetime first0"
  unfolding first_reminder_of_def dt_sub_def
  by (auto split: if_splits sum.splits dest: dt_add_valid)

lemma first_reminder_normalized_valid:
  assumes "first_reminder_normalized e dp ru drt = Inr fr"
  shows "valid_datetime fr"
proof -
  from assms obtain first0 h m where f: "first_reminder_of e dp ru = Inr first0"
    and b: "0 \<le> h" "h \<le> 23" "0 \<le> m" "m \<le> 59"
    and fr: "fr = first0\<lparr>hour := h, minute := m, second := 0, microsecond := 0\<rparr>"
    by (rule first_reminder_normalized_InrD)
  from first_reminder_of_valid [OF f] b show ?thesis
    unfolding valid_datetime_def fr by simp
qed






lemma schedule_elements:
  assumes "calculate_reminder_dates e dp ru rr ri rpu drt = Inr s"
  obtains fr where "first_reminder_normalized e dp ru drt = Inr fr" "s ! 0 = fr"
    "length s = nat rr + 1"
    "\<forall>i. 0 < i \<longrightarrow> i < length s \<longrightarrow> next_reminder fr ri rpu (int i) = Inr (s ! i)"
proof -
  from assms obtain fr ns where fr: "first_reminder_normalized e dp ru drt = Inr fr"
    and s: "s = fr # ns" and len: "length ns = nat rr"
    and ns: "\<forall>k < length ns. next_reminder fr ri rpu (1 + int k) = Inr (ns ! k)"
    by (rule calculate_reminder_dates_InrD)
  have "next_reminder fr ri rpu (int i) = Inr (s ! i)" if "0 < i" "i < length s" for i
  proof -
    from that obtain k where k: "i = Suc k" by (cases i) auto
    with that s have "k < length ns" by simp
    with ns have "next_reminder fr ri rpu (1 + int k) = Inr (ns ! k)" by blast
    then show ?thesis unfolding k s by simp
  qed
  with fr s len that show thesis by simp
qed

lemma schedule_eval_days:
  "calculate_reminder_dates
     \<lparr>ordinal = 739261, hour = 0, minute = 0, second = 0, microsecond = 0\<rparr>
     3 ''DAY(S)'' 2 1 ''DAY(S)'' None =
   Inr [\<lparr>ordinal = 739258, hour = 8, minute = 0, second = 0, microsecond = 0\<rparr>,
        \<lparr>ordinal = 739259, hour = 8, minute = 0, second = 0, microsecond = 0\<rparr>,
        \<lparr>ordinal = 739260, hour = 8, minute = 0, second = 0, microsecond = 0\<rparr>]"
  by code_simp

lemma schedule_eval_single:
  "calculate_reminder_dates
     \<lparr>ordinal = 739261, hour = 0, minute = 0, second = 0, microsecond = 0\<rparr>
     3 ''DAY(S)'' 0 1 ''DAY(S)'' None =
   Inr [\<lparr>ordinal = 739258, hour = 8, minute = 0, second = 0, microsecond = 0\<rparr>]"
  by code_simp

lemma schedule_eval_hours:
  "calculate_reminder_dates
     \<lparr>ordinal = 739261, hour = 0, minute = 0, second = 0, microsecond = 0\<rparr>
     3 ''DAY(S)'' 1 1 ''HOUR(S)'' None =
   Inr [\<lparr>ordinal = 739258, hour = 8, minute = 0, second = 0, microsecond = 0\<rparr>,
        \<lparr>ordinal = 739258, hour = 9, minute = 0, second = 0, microsecond = 0\<rparr>]"
  by code_simp

lemma first_eval:
  "first_reminder_normalized
     \<lparr>ordinal = 739261, hour = 0, minute = 0, second = 0, microsecond = 0\<rparr>
     3 ''DAY(S)'' None =
   Inr \<lparr>ordinal = 739258, hour = 8, minute = 0, second = 0, microsecond = 0\<rparr>"
  by code_simp

text \<open>
  C7: in a schedule returned by \<^verbatim>\<open>calculate_reminder_dates\<close> the first element is the
  normalized first reminder and the element of index \<open>i\<close> lies \<open>i * repeat_intervals\<close> repeat
  units after it; when \<open>repeat_intervals > 0\<close> the schedule is strictly increasing.
\<close>

theorem schedule_increasing:
  assumes "calculate_reminder_dates e dp ru rr ri rpu drt = Inr s"
  shows "\<exists>fr. first_reminder_normalized e dp ru drt = Inr fr \<and> s ! 0 = fr \<and>
    (\<forall>i < length s. valid_datetime (s ! i) \<and>
       dt_to_us (s ! i) = dt_to_us fr + int i * ri * unit_us rpu) \<and>
    (0 < ri \<longrightarrow> sorted_wrt dt_less s)"
proof -
  from assms obtain fr where fr: "first_reminder_normalized e dp ru drt = Inr fr"
    and s0: "s ! 0 = fr" and len: "length s = nat rr + 1"
    and nx: "\<forall>i. 0 < i \<longrightarrow> i < length s \<longrightarrow> next_reminder fr ri rpu (int i) = Inr (s ! i)"
    by (rule schedule_elements)
  have el: "valid_datetime (s ! i) \<and> dt_to_us (s ! i) = dt_to_us fr + int i * ri * unit_us rpu"
    if "i < length s" for i
  proof (cases "i = 0")
    case True
    with s0 first_reminder_normalized_valid [OF fr] show ?thesis by simp
  next
    case False
    with that nx have n: "next_reminder fr ri rpu (int i) = Inr (s ! i)" by simp
    from next_reminder_us [OF n] next_reminder_valid [OF n] show ?thesis by simp
  qed
  have "sorted_wrt dt_less s" if ri: "0 < ri"
    unfolding sorted_wrt_iff_nth_less
  proof (intro allI impI)
    fix i j assume ij: "i < j" "j < length s"
    then have i: "i < length s" by simp
    from ij nx have "next_reminder fr ri rpu (int j) = Inr (s ! j)" by simp
    then have "rpu \<in> {''WEEK(S)'', ''DAY(S)'', ''HOUR(S)''}" by (rule next_reminder_unit)
    then have u: "0 < unit_us rpu" unfolding unit_us_def by auto
    from ij have "0 < int j - int i" by simp
    with ri have "0 < (int j - int i) * ri" by simp
    with u have "0 < (int j - int i) * ri * unit_us rpu" by simp
    then have "int i * ri * unit_us rpu < int j * ri * unit_us rpu"
      by (simp add: algebra_simps)
    with el [OF i] el [OF ij(2)] have "dt_to_us (s ! i) < dt_to_us (s ! j)" by simp
    with el [OF i] el [OF ij(2)] show "dt_less (s ! i) (s ! j)"
      by (simp add: dt_less_iff_us)
  qed
  with fr s0 el show ?thesis by blast
qed

theorem schedule_increasing_witness:
  "calculate_reminder_dates
     \<lparr>ordinal = 739261, hour = 0, minute = 0, second = 0, microsecond = 0\<rparr>
     3 ''DAY(S)'' 2 1 ''DAY(S)'' None =
   Inr [\<lparr>ordinal = 739258, hour = 8, minute = 0, second = 0, microsecond = 0\<rparr>,
        \<lparr>ordinal = 739259, hour = 8, minute = 0, second = 0, microsecond = 0\<rparr>,
        \<lparr>ordinal = 739260, hour = 8, minute = 0, second = 0, microsecond = 0\<rparr>]
   \<and> (0::int) < 1
   \<and> dt_to_us \<lparr>ordinal = 739260, hour = 8, minute = 0, second = 0, microsecond = 0\<rparr> =
       dt_to_us \<lparr>ordinal = 739258, hour = 8, minute = 0, second = 0, microsecond = 0\<rparr>
         + 2 * 1 * unit_us ''DAY(S)''
   \<and> dt_less \<lparr>ordinal = 739258, hour = 8, minute = 0, second = 0, microsecond = 0\<rparr>
       \<lparr>ordinal = 739259, hour = 8, minute = 0, second = 0, microsecond = 0\<rparr>
   \<and> dt_less \<lparr>ordinal = 739259, hour = 8, minute = 0, second = 0, microsecond = 0\<rparr>
       \<lparr>ordinal = 739260, hour = 8, minute = 0, second = 0, microsecond = 0\<rparr>"
  using schedule_increasing [OF schedule_eval_days] schedule_eval_days
  by (simp add: first_eval dt_to_us_def unit_us_def dt_less_def)

section \<open>Properties of the division\<close>

lemma round_half_even_unfold:
  "round_half_even n d =
     (if 2 * (n mod d) < d then n div d
      else if d < 2 * (n mod d) then n div d + 1
      else if even (n div d) then n div d else n div d + 1)"
  unfolding round_half_even_def Let_def ..



lemma round_half_even_nonneg:
  assumes "0 \<le> n" "0 < d"
  shows "0 \<le> round_half_even n d"
proof -
  from assms have "0 \<le> n div d" by (simp add: pos_imp_zdiv_nonneg_iff)
  then show ?thesis unfolding round_half_even_unfold by simp
qed


lemma bitlen_pos: "0 < x \<Longrightarrow> 1 \<le> bitlen x"
  using bitlen_eq_zero_iff [of x] bitlen_nonneg [of x] by linarith

lemma quotient_exponent_range:
  "quotient_exponent x y = bitlen x - bitlen y \<or>
   quotient_exponent x y = bitlen x - bitlen y - 1"
  unfolding quotient_exponent_def Let_def by simp





section \<open>Properties of the end date\<close>

lemma dt_to_us_range:
  assumes "0 \<le> hour d" "hour d < 24" "0 \<le> minute d" "minute d < 60"
    "0 \<le> second d" "second d < 60" "0 \<le> microsecond d" "microsecond d < 1000000"
  shows "ordinal d * 86400000000 \<le> dt_to_us d"
    "dt_to_us d < ordinal d * 86400000000 + 86400000000"
  unfolding dt_to_us_def using assms by (simp_all add: algebra_simps)

lemma dt_to_us_valid_range:
  assumes "valid_datetime d"
  shows "86400000000 \<le> dt_to_us d" "dt_to_us d < (MAXORDINAL + 1) * 86400000000"
proof -
  from assms have b: "0 \<le> hour d" "hour d < 24" "0 \<le> minute d" "minute d < 60"
    "0 \<le> second d" "second d < 60" "0 \<le> microsecond d" "microsecond d < 1000000"
    and o: "1 \<le> ordinal d" "ordinal d \<le> MAXORDINAL"
    unfolding valid_datetime_def by simp_all
  note r = dt_to_us_range [OF b]
  from r(1) o(1) show "86400000000 \<le> dt_to_us d" by linarith
  from r(2) o(2) show "dt_to_us d < (MAXORDINAL + 1) * 86400000000"
    by (simp add: algebra_simps)
qed

lemma dt_add_error: "dt_add d t = Inl e \<Longrightarrow> e = OverflowError"
proof -
  assume a: "dt_add d t = Inl e"
  obtain d' where "dt_add d t =
    (if 0 < ordinal d' \<and> ordinal d' \<le> MAXORDINAL then Inr d' else Inl OverflowError)"
    by (rule dt_add_cases)
  with a show ?thesis by (simp split: if_splits)
qed

lemma dt_add_success:
  assumes "86400000000 \<le> dt_to_us d + td_to_us t"
    "dt_to_us d + td_to_us t < (MAXORDINAL + 1) * 86400000000"
  shows "\<exists>d'. dt_add d t = Inr d'"
proof -
  obtain d' where eq: "dt_add d t =
    (if 0 < ordinal d' \<and> ordinal d' \<le> MAXORDINAL then Inr d' else Inl OverflowError)"
    and u: "dt_to_us d' = dt_to_us d + td_to_us t"
    and b: "0 \<le> hour d'" "hour d' < 24" "0 \<le> minute d'" "minute d' < 60"
    "0 \<le> second d'" "second d' < 60" "0 \<le> microsecond d'" "microsecond d' < 1000000"
    by (rule dt_add_cases)
  note r = dt_to_us_range [OF b]
  from r(2) u assms(1) have "0 < ordinal d'" by linarith
  moreover from r(1) u assms(2) have "ordinal d' \<le> MAXORDINAL"
    by (simp add: algebra_simps)
  ultimately show ?thesis using eq by simp
qed

lemma dt_to_us_inj:
  assumes "valid_datetime a" "valid_datetime b" "dt_to_us a = dt_to_us b"
  shows "a = b"
proof -
  from assms have "\<not> dt_less a b" "\<not> dt_less b a" by (simp_all add: dt_less_iff_us)
  then have "ordinal a = ordinal b \<and> hour a = hour b \<and> minute a = minute b \<and>
    second a = second b \<and> microsecond a = microsecond b"
    unfolding dt_less_def by (metis linorder_neqE_linordered_idom)
  then show ?thesis by simp
qed

lemma dt_add_zero:
  assumes "valid_datetime d" "td_to_us t = 0"
  shows "dt_add d t = Inr d"
proof -
  from dt_to_us_valid_range [OF assms(1)] assms(2)
  have "\<exists>d'. dt_add d t = Inr d'" by (intro dt_add_success) simp_all
  then obtain d' where d': "dt_add d t = Inr d'" ..
  from dt_add_us [OF d'] assms(2) have "dt_to_us d' = dt_to_us d" by simp
  with dt_add_valid [OF d'] assms(1) have "d' = d" by (intro dt_to_us_inj)
  with d' show ?thesis by simp
qed

lemma timedelta_new_error: "timedelta_new d s us = Inl e \<Longrightarrow> e = OverflowError"
  unfolding timedelta_new_def Let_def by (simp split: if_splits)

lemma timedelta_new_result:
  "timedelta_new d s us = Inl OverflowError \<or>
   (\<exists>t. timedelta_new d s us = Inr t \<and> td_to_us t = (d * 86400 + s) * 1000000 + us)"
proof (cases "timedelta_new d s us")
  case (Inl e)
  with timedelta_new_error [OF Inl] show ?thesis by simp
next
  case (Inr t)
  with timedelta_new_us [OF Inr] show ?thesis by simp
qed

lemma timedelta_new_success:
  assumes "0 \<le> s" "s \<le> 999999999 * 86400"
  shows "\<exists>t. timedelta_new 0 s 0 = Inr t"
proof -
  from assms(1) have "0 \<le> s div 86400" by (simp add: pos_imp_zdiv_nonneg_iff)
  moreover from assms(2) have "s div 86400 \<le> (999999999 * 86400) div 86400"
    by (rule zdiv_mono1) simp
  ultimately have "\<bar>s div 86400\<bar> \<le> 999999999" by simp
  then show ?thesis unfolding timedelta_new_def Let_def by simp
qed

lemma timedelta_days_success:
  assumes "0 \<le> n" "n \<le> 999999999"
  shows "\<exists>t. timedelta_new n 0 0 = Inr t"
  using assms unfolding timedelta_new_def Let_def by simp

text \<open>The timedelta of \<open>k\<close> units: its constructor call, its length and when it succeeds.\<close>

lemma unit_timedelta:
  assumes "f \<in> {''HOUR(S)'', ''DAY(S)'', ''WEEK(S)''}"
  obtains td where
    "td = (if f = ''HOUR(S)'' then timedelta_hours k
           else if f = ''DAY(S)'' then timedelta_days k else timedelta_weeks k)"
    "td = Inl OverflowError \<or> (\<exists>t. td = Inr t \<and> td_to_us t = k * unit_us f)"
    "0 \<le> k \<and> k * unit_us f \<le> MAXORDINAL * 86400000000 \<longrightarrow> (\<exists>t. td = Inr t)"
proof -
  define td where "td = (if f = ''HOUR(S)'' then timedelta_hours k
           else if f = ''DAY(S)'' then timedelta_days k else timedelta_weeks k)"
  from assms consider "f = ''HOUR(S)''" | "f = ''DAY(S)''" | "f = ''WEEK(S)''" by auto
  then have "(td = Inl OverflowError \<or> (\<exists>t. td = Inr t \<and> td_to_us t = k * unit_us f)) \<and>
    (0 \<le> k \<and> k * unit_us f \<le> MAXORDINAL * 86400000000 \<longrightarrow> (\<exists>t. td = Inr t))"
  proof cases
    case 1
    have td: "td = timedelta_new 0 (k * 3600) 0" and u: "unit_us f = 3600000000"
      using 1 by (simp_all add: td_def timedelta_hours_def unit_us_def)
    have "\<exists>t. td = Inr t" if "0 \<le> k" "k * unit_us f \<le> MAXORDINAL * 86400000000"
    proof -
      from that have "0 \<le> k * 3600" "k * 3600 \<le> 999999999 * 86400"
        unfolding u MAXORDINAL_def by linarith+
      then show ?thesis unfolding td by (rule timedelta_new_success)
    qed
    with timedelta_new_result [of 0 "k * 3600" 0] show ?thesis unfolding td u
      by (auto simp: algebra_simps)
  next
    case 2
    have td: "td = timedelta_new k 0 0" and u: "unit_us f = 86400000000"
      using 2 by (simp_all add: td_def timedelta_days_def unit_us_def)
    have "\<exists>t. td = Inr t" if "0 \<le> k" "k * unit_us f \<le> MAXORDINAL * 86400000000"
    proof -
      from that have "0 \<le> k" "k \<le> 999999999"
        unfolding u MAXORDINAL_def by linarith+
      then show ?thesis unfolding td by (rule timedelta_days_success)
    qed
    with timedelta_new_result [of k 0 0] show ?thesis unfolding td u
      by (auto simp: algebra_simps)
  next
    case 3
    have td: "td = timedelta_new (k * 7) 0 0" and u: "unit_us f = 604800000000"
      using 3 by (simp_all add: td_def timedelta_weeks_def unit_us_def)
    have "\<exists>t. td = Inr t" if "0 \<le> k" "k * unit_us f \<le> MAXORDINAL * 86400000000"
    proof -
      from that have "0 \<le> k * 7" "k * 7 \<le> 999999999"
        unfolding u MAXORDINAL_def by linarith+
      then show ?thesis unfolding td by (rule timedelta_days_success)
    qed
    with timedelta_new_result [of "k * 7" 0 0] show ?thesis unfolding td u
      by (auto simp: algebra_simps)
  qed
  with td_def that show thesis by blast
qed

lemma calculate_end_date_unit:
  assumes "f \<in> {''HOUR(S)'', ''DAY(S)'', ''WEEK(S)''}" "additional_doses ts md = Inr n"
  shows "calculate_end_date sd md f ts di st =
    (case (if f = ''HOUR(S)'' then timedelta_hours (n * di)
           else if f = ''DAY(S)'' then timedelta_days (n * di) else timedelta_weeks (n * di)) of
       Inl e \<Rightarrow> Inl e | Inr t \<Rightarrow> dt_add (base_date sd f st) t)"
  using assms unfolding calculate_end_date_def Let_def by auto

lemma calculate_end_date_result:
  assumes f: "f \<in> {''HOUR(S)'', ''DAY(S)'', ''WEEK(S)''}" and n: "additional_doses ts md = Inr n"
  shows "case calculate_end_date sd md f ts di st of
      Inl e \<Rightarrow> e = OverflowError
    | Inr d \<Rightarrow> valid_datetime d \<and>
        dt_to_us d = dt_to_us (base_date sd f st) + n * di * unit_us f"
proof -
  from f obtain td where td: "td = (if f = ''HOUR(S)'' then timedelta_hours (n * di)
           else if f = ''DAY(S)'' then timedelta_days (n * di) else timedelta_weeks (n * di))"
    and r: "td = Inl OverflowError \<or> (\<exists>t. td = Inr t \<and> td_to_us t = (n * di) * unit_us f)"
    by (rule unit_timedelta)
  have c: "calculate_end_date sd md f ts di st =
      (case td of Inl e \<Rightarrow> Inl e | Inr t \<Rightarrow> dt_add (base_date sd f st) t)"
    unfolding td by (rule calculate_end_date_unit [OF f n])
  from r show ?thesis
  proof
    assume "td = Inl OverflowError"
    then show ?thesis unfolding c by simp
  next
    assume "\<exists>t. td = Inr t \<and> td_to_us t = (n * di) * unit_us f"
    then obtain t where t: "td = Inr t" "td_to_us t = n * di * unit_us f" by blast
    show ?thesis
    proof (cases "dt_add (base_date sd f st) t")
      case (Inl e)
      with dt_add_error [OF Inl] show ?thesis unfolding c t(1) by simp
    next
      case (Inr d)
      with dt_add_us [OF Inr] dt_add_valid [OF Inr] t(2) show ?thesis unfolding c t(1) by simp
    qed
  qed
qed

lemma calculate_end_date_success:
  assumes f: "f \<in> {''HOUR(S)'', ''DAY(S)'', ''WEEK(S)''}" and n: "additional_doses ts md = Inr n"
    and k: "0 \<le> n * di" and v: "valid_datetime (base_date sd f st)"
    and r: "dt_to_us (base_date sd f st) + n * di * unit_us f < (MAXORDINAL + 1) * 86400000000"
  shows "\<exists>d. calculate_end_date sd md f ts di st = Inr d"
proof -
  from f obtain td where td: "td = (if f = ''HOUR(S)'' then timedelta_hours (n * di)
           else if f = ''DAY(S)'' then timedelta_days (n * di) else timedelta_weeks (n * di))"
    and r1: "td = Inl OverflowError \<or> (\<exists>t. td = Inr t \<and> td_to_us t = (n * di) * unit_us f)"
    and r2: "0 \<le> n * di \<and> (n * di) * unit_us f \<le> MAXORDINAL * 86400000000
       \<longrightarrow> (\<exists>t. td = Inr t)"
    by (rule unit_timedelta)
  have c: "calculate_end_date sd md f ts di st =
      (case td of Inl e \<Rightarrow> Inl e | Inr t \<Rightarrow> dt_add (base_date sd f st) t)"
    unfolding td by (rule calculate_end_date_unit [OF f n])
  note b = dt_to_us_valid_range [OF v]
  from f have u: "0 \<le> unit_us f" unfolding unit_us_def by auto
  with k have nn: "0 \<le> n * di * unit_us f" by simp
  from b(1) r have "n * di * unit_us f \<le> MAXORDINAL * 86400000000"
    by (simp add: MAXORDINAL_def)
  with k r2 obtain t where t: "td = Inr t" by blast
  with r1 have tu: "td_to_us t = n * di * unit_us f" by simp
  have "\<exists>d. dt_add (base_date sd f st) t = Inr d"
  proof (rule dt_add_success)
    show "86400000000 \<le> dt_to_us (base_date sd f st) + td_to_us t"
      unfolding tu using b(1) nn by linarith
    show "dt_to_us (base_date sd f st) + td_to_us t < (MAXORDINAL + 1) * 86400000000"
      unfolding tu by (rule r)
  qed
  then show ?thesis unfolding c t by simp
qed


lemma int_truediv_error:
  "int_truediv a b = Inl e \<Longrightarrow> (b = 0 \<and> e = ZeroDivisionError) \<or> (b \<noteq> 0 \<and> e = OverflowError)"
  unfolding int_truediv_def Let_def by (simp split: if_splits)

lemma additional_doses_error:
  "additional_doses ts md = Inl e \<Longrightarrow>
     (md = 0 \<and> e = ZeroDivisionError) \<or> (md \<noteq> 0 \<and> e = OverflowError)"
  unfolding additional_doses_def Let_def
  by (auto split: sum.splits dest: int_truediv_error)

lemma additional_doses_zero_divisor: "additional_doses ts 0 = Inl ZeroDivisionError"
  unfolding additional_doses_def int_truediv_def by simp

lemma calculate_end_date_error:
  "additional_doses ts md = Inl e \<Longrightarrow> calculate_end_date sd md f ts di st = Inl e"
  unfolding calculate_end_date_def Let_def by simp

lemma math_ceil_nonpos:
  assumes "mant q \<le> 0"
  shows "math_ceil q \<le> 0"
proof (cases "0 \<le> expo q")
  case True
  from assms have "mant q * 2 ^ nat (expo q) \<le> 0" by (simp add: mult_le_0_iff)
  with True show ?thesis by (simp add: math_ceil_def)
next
  case False
  from assms have "0 \<le> (- mant q) div 2 ^ nat (- expo q)"
    by (simp add: pos_imp_zdiv_nonneg_iff)
  with False show ?thesis by (simp add: math_ceil_def)
qed

lemma additional_doses_nonpos:
  assumes md: "md \<noteq> 0" and sg: "ts = 0 \<or> (ts < 0) \<noteq> (md < 0)" and b: "\<bar>ts\<bar> < 2 ^ 1023"
  shows "additional_doses ts md = Inr 0"
proof (cases "ts = 0")
  case True
  with md show ?thesis
    unfolding additional_doses_def int_truediv_def Let_def math_ceil_def by simp
next
  case False
  define x y where "x = \<bar>ts\<bar>" and "y = \<bar>md\<bar>"
  have x: "0 < x" and y: "0 < y" using False md by (simp_all add: x_def y_def)
  define p where "p = max (quotient_exponent x y) (- 1022) - 52"
  define m where "m = round_half_even (x * 2 ^ nat (- p)) (y * 2 ^ nat p)"
  have "bitlen x \<le> 1023" using b by (simp add: x_def bitlen_le_iff_power)
  moreover have "1 \<le> bitlen y" using y by (rule bitlen_pos)
  ultimately have "quotient_exponent x y \<le> 1022"
    using quotient_exponent_range [of x y] by linarith
  then have p: "p \<le> 970" by (simp add: p_def)
  have m: "0 \<le> m" unfolding m_def using x y by (intro round_half_even_nonneg) simp_all
  from False sg have sg': "((ts < 0) = (md < 0)) = False" by simp
  from False md have z: "(md = 0) = False" "(ts = 0) = False" by simp_all
  have "int_truediv ts md =
      (if 971 < p \<or> (p = 971 \<and> m = 2 ^ 53) then Inl OverflowError
       else Inr \<lparr>mant = - m, expo = p\<rparr>)"
    unfolding int_truediv_def Let_def x_def [symmetric] y_def [symmetric] p_def [symmetric]
      m_def [symmetric] sg' z
    by (simp only: if_False)
  with p have q: "int_truediv ts md = Inr \<lparr>mant = - m, expo = p\<rparr>" by simp
  have "math_ceil \<lparr>mant = - m, expo = p\<rparr> \<le> 0" using m by (intro math_ceil_nonpos) simp
  then show ?thesis unfolding additional_doses_def Let_def q by simp
qed

lemma calculate_end_date_zero:
  assumes f: "f \<in> {''HOUR(S)'', ''DAY(S)'', ''WEEK(S)''}" and n: "additional_doses ts md = Inr 0"
    and v: "valid_datetime (base_date sd f st)"
  shows "calculate_end_date sd md f ts di st = Inr (base_date sd f st)"
proof -
  have "\<exists>d. calculate_end_date sd md f ts di st = Inr d"
    using f n _ v
  proof (rule calculate_end_date_success)
    show "0 \<le> 0 * di" by simp
    show "dt_to_us (base_date sd f st) + 0 * di * unit_us f < (MAXORDINAL + 1) * 86400000000"
      using dt_to_us_valid_range(2) [OF v] by simp
  qed
  then obtain d where d: "calculate_end_date sd md f ts di st = Inr d" ..
  from calculate_end_date_result [OF f n, where sd = sd and di = di and st = st] d
  have "valid_datetime d" "dt_to_us d = dt_to_us (base_date sd f st)" by simp_all
  with v have "d = base_date sd f st" by (intro dt_to_us_inj)
  with d show ?thesis by simp
qed

lemma base_date_idem: "base_date (base_date sd f st) f None = base_date sd f st"
  unfolding base_date_def by simp

lemma calculate_end_date_base:
  "calculate_end_date sd md f ts di st = calculate_end_date (base_date sd f st) md f ts di None"
  unfolding calculate_end_date_def base_date_idem ..

lemma repeat_loop_error:
  "repeat_loop fr rr ri ru i acc = Inl e \<Longrightarrow>
     e = OverflowError \<or> e = ValueError (''Invalid repeat unit: '' @ ru)"
proof (induction fr rr ri ru i acc rule: repeat_loop.induct)
  case (1 fr rr ri ru i acc)
  show ?case
  proof (cases "i < rr + 1")
    case False
    with "1.prems" show ?thesis by (simp add: repeat_loop.simps)
  next
    case True
    show ?thesis
    proof (cases "next_reminder fr ri ru i")
      case (Inl e')
      with True "1.prems" have "e' = e" by (simp add: repeat_loop.simps [of fr rr ri ru i acc])
      with Inl show ?thesis
        unfolding next_reminder_def timedelta_hours_def timedelta_days_def timedelta_weeks_def
        by (auto split: if_splits sum.splits dest: timedelta_new_error dt_add_error)
    next
      case (Inr n)
      with True "1.prems" have "repeat_loop fr rr ri ru (i + 1) (acc @ [n]) = Inl e"
        by (simp add: repeat_loop.simps [of fr rr ri ru i acc])
      with "1.IH" [OF True Inr] show ?thesis by simp
    qed
  qed
qed

lemma repeat_loop_invalid_unit:
  assumes "ru \<notin> {''WEEK(S)'', ''DAY(S)'', ''HOUR(S)''}"
  shows "repeat_loop fr rr ri ru 1 [fr] =
    (if 1 \<le> rr then Inl (ValueError (''Invalid repeat unit: '' @ ru)) else Inr [fr])"
proof -
  from assms have "next_reminder fr ri ru 1 = Inl (ValueError (''Invalid repeat unit: '' @ ru))"
    unfolding next_reminder_def by simp
  then show ?thesis by (simp add: repeat_loop.simps [of fr rr ri ru 1 "[fr]"])
qed

lemma first_reminder_of_error:
  assumes "ru \<in> {''WEEK(S)'', ''DAY(S)'', ''(HOUR(S))''}" "first_reminder_of e dp ru = Inl err"
  shows "err = OverflowError"
  using assms unfolding first_reminder_of_def dt_sub_def timedelta_neg_def timedelta_hours_def
    timedelta_days_def timedelta_weeks_def
  by (auto split: if_splits sum.splits dest: timedelta_new_error dt_add_error)

lemma first_reminder_of_invalid:
  assumes "ru \<notin> {''WEEK(S)'', ''DAY(S)'', ''(HOUR(S))''}"
  shows "first_reminder_of e dp ru = Inl (ValueError (''Invalid reminder unit: '' @ ru))"
  using assms unfolding first_reminder_of_def by simp

lemma first_reminder_normalized_error:
  assumes "ru \<in> {''WEEK(S)'', ''DAY(S)'', ''(HOUR(S))''}"
    "first_reminder_normalized e dp ru drt = Inl err"
  shows "err \<noteq> ValueError (''Invalid reminder unit: '' @ ru)"
proof (cases "first_reminder_of e dp ru")
  case (Inl e')
  with first_reminder_of_error [OF assms(1) Inl] assms(2) show ?thesis
    unfolding first_reminder_normalized_def Let_def by simp
next
  case (Inr first0)
  with assms(2) show ?thesis
    unfolding first_reminder_normalized_def Let_def dict_get_def dt_replace_time_def
    by (auto split: option.splits if_splits)
qed

lemma calculate_end_date_InrD:
  assumes "calculate_end_date sd md f ts di st = Inr d"
  obtains n where "f \<in> {''HOUR(S)'', ''DAY(S)'', ''WEEK(S)''}" "additional_doses ts md = Inr n"
  using assms unfolding calculate_end_date_def Let_def
  by (auto split: sum.splits if_splits)

lemma end_eval_days:
  "calculate_end_date \<lparr>ordinal = 739252, hour = 0, minute = 0, second = 0, microsecond = 0\<rparr>
     2 ''DAY(S)'' 20 1 None =
   Inr \<lparr>ordinal = 739261, hour = 0, minute = 0, second = 0, microsecond = 0\<rparr>"
  by code_simp

lemma end_eval_single:
  "calculate_end_date \<lparr>ordinal = 739252, hour = 0, minute = 0, second = 0, microsecond = 0\<rparr>
     3 ''DAY(S)'' 3 1 None =
   Inr \<lparr>ordinal = 739252, hour = 0, minute = 0, second = 0, microsecond = 0\<rparr>"
  by code_simp

lemma end_eval_hours:
  "calculate_end_date \<lparr>ordinal = 739252, hour = 0, minute = 0, second = 0, microsecond = 0\<rparr>
     1 ''HOUR(S)'' 3 8
     (Some \<lparr>ordinal = 739252, hour = 9, minute = 30, second = 0, microsecond = 0\<rparr>) =
   Inr \<lparr>ordinal = 739253, hour = 1, minute = 30, second = 0, microsecond = 0\<rparr>"
  by code_simp

lemma end_eval_no_supply:
  "calculate_end_date \<lparr>ordinal = 739252, hour = 0, minute = 0, second = 0, microsecond = 0\<rparr>
     2 ''DAY(S)'' 0 1 None =
   Inr \<lparr>ordinal = 739252, hour = 0, minute = 0, second = 0, microsecond = 0\<rparr>"
  by code_simp

lemma doses_eval: "additional_doses 20 2 = Inr 9" "additional_doses 3 1 = Inr 2"
  by code_simp+

lemma valid_eval:
  "valid_datetime \<lparr>ordinal = 739252, hour = 0, minute = 0, second = 0, microsecond = 0\<rparr>"
  by (simp add: valid_datetime_def MAXORDINAL_def)

text \<open>
  C2 (as stated): a non-positive \<open>max_dosage\<close> or \<open>total_supply\<close> is rejected with a
  \<^verbatim>\<open>ValueError\<close> before the division.  The function has no such check: with
  \<open>total_supply = 0\<close> the call succeeds and returns the anchor, and with \<open>max_dosage = 0\<close> the
  error is the \<^verbatim>\<open>ZeroDivisionError\<close> of the division itself.
\<close>

theorem end_date_no_validation_counterexample:
  "calculate_end_date \<lparr>ordinal = 739252, hour = 0, minute = 0, second = 0, microsecond = 0\<rparr>
     2 ''DAY(S)'' 0 1 None =
   Inr \<lparr>ordinal = 739252, hour = 0, minute = 0, second = 0, microsecond = 0\<rparr>
   \<and> calculate_end_date
       \<lparr>ordinal = 739252, hour = 0, minute = 0, second = 0, microsecond = 0\<rparr>
       0 ''DAY(S)'' 20 1 None = Inl ZeroDivisionError"
  by code_simp

text \<open>
  C2 (amended): \<^verbatim>\<open>calculate_end_date\<close> does not validate \<open>max_dosage\<close> or \<open>total_supply\<close>.  With
  \<open>max_dosage = 0\<close> it fails with the \<^verbatim>\<open>ZeroDivisionError\<close> raised by the division.  With
  \<open>max_dosage \<noteq> 0\<close> and a quotient that is zero or negative (\<open>total_supply = 0\<close>, or exactly one
  of the two negative), \<open>|total_supply| < 2 ^ 1023\<close>, a recognized frequency and a valid anchor,
  it succeeds and returns the anchor.  For a recognized frequency it never raises
  \<^verbatim>\<open>ValueError\<close>.
\<close>

theorem end_date_nonpositive:
  "calculate_end_date sd 0 f ts di st = Inl ZeroDivisionError
   \<and> (md \<noteq> 0 \<and> (ts = 0 \<or> (ts < 0) \<noteq> (md < 0)) \<and> \<bar>ts\<bar> < 2 ^ 1023 \<and>
        f \<in> {''HOUR(S)'', ''DAY(S)'', ''WEEK(S)''} \<and> valid_datetime (base_date sd f st)
      \<longrightarrow> calculate_end_date sd md f ts di st = Inr (base_date sd f st))
   \<and> (f \<in> {''HOUR(S)'', ''DAY(S)'', ''WEEK(S)''}
      \<longrightarrow> calculate_end_date sd md f ts di st \<noteq> Inl (ValueError msg))"
proof -
  have 1: "calculate_end_date sd 0 f ts di st = Inl ZeroDivisionError"
    using additional_doses_zero_divisor by (rule calculate_end_date_error)
  have 2: "calculate_end_date sd md f ts di st = Inr (base_date sd f st)"
    if "md \<noteq> 0" "ts = 0 \<or> (ts < 0) \<noteq> (md < 0)" "\<bar>ts\<bar> < 2 ^ 1023"
      "f \<in> {''HOUR(S)'', ''DAY(S)'', ''WEEK(S)''}" "valid_datetime (base_date sd f st)"
    using that(4) additional_doses_nonpos [OF that(1,2,3)] that(5)
    by (rule calculate_end_date_zero)
  have 3: "calculate_end_date sd md f ts di st \<noteq> Inl (ValueError msg)"
    if f: "f \<in> {''HOUR(S)'', ''DAY(S)'', ''WEEK(S)''}"
  proof (cases "additional_doses ts md")
    case (Inl e)
    from additional_doses_error [OF Inl] calculate_end_date_error [OF Inl, of sd f di st]
    show ?thesis by auto
  next
    case (Inr n)
    from calculate_end_date_result [OF f Inr, where sd = sd and di = di and st = st]
    show ?thesis by (auto split: sum.splits)
  qed
  from 1 2 3 show ?thesis by blast
qed

theorem end_date_nonpositive_witness:
  "(2::int) \<noteq> 0 \<and> \<bar>0::int\<bar> < 2 ^ 1023
   \<and> valid_datetime (base_date
         \<lparr>ordinal = 739252, hour = 0, minute = 0, second = 0, microsecond = 0\<rparr>
         ''DAY(S)'' None)
   \<and> calculate_end_date
       \<lparr>ordinal = 739252, hour = 0, minute = 0, second = 0, microsecond = 0\<rparr>
       2 ''DAY(S)'' 0 1 None =
     Inr \<lparr>ordinal = 739252, hour = 0, minute = 0, second = 0, microsecond = 0\<rparr>
   \<and> calculate_end_date
       \<lparr>ordinal = 739252, hour = 0, minute = 0, second = 0, microsecond = 0\<rparr>
       2 ''DAY(S)'' 0 1 None \<noteq> Inl (ValueError ''max_dosage'')"
  using end_date_nonpositive [where md = 2 and ts = 0 and f = "''DAY(S)''" and di = 1
      and st = None and msg = "''max_dosage''"
      and sd = "\<lparr>ordinal = 739252, hour = 0, minute = 0, second = 0, microsecond = 0\<rparr>"]
  by (simp add: base_date_def valid_eval)

text \<open>
  C6: the anchor of \<^verbatim>\<open>calculate_end_date\<close> is \<open>start_time\<close> for the hour frequency when a
  \<open>start_time\<close> is supplied, and \<open>start_date\<close> for the hour frequency without \<open>start_time\<close> and
  for the day and week frequencies.  The result depends on \<open>start_date\<close> and \<open>start_time\<close> only
  through this anchor, and a returned end date lies a whole number of dosing intervals after it.
\<close>

theorem end_date_anchor:
  "base_date sd ''HOUR(S)'' (Some t) = t
   \<and> base_date sd ''HOUR(S)'' None = sd
   \<and> base_date sd ''DAY(S)'' st = sd
   \<and> base_date sd ''WEEK(S)'' st = sd
   \<and> calculate_end_date sd md f ts di st
       = calculate_end_date (base_date sd f st) md f ts di None
   \<and> (calculate_end_date sd md f ts di st = Inr d \<longrightarrow>
        valid_datetime d \<and>
        (\<exists>n. additional_doses ts md = Inr n \<and>
           dt_to_us d = dt_to_us (base_date sd f st) + n * di * unit_us f))"
proof -
  have 1: "base_date sd ''HOUR(S)'' (Some t) = t" "base_date sd ''HOUR(S)'' None = sd"
    "base_date sd ''DAY(S)'' st = sd" "base_date sd ''WEEK(S)'' st = sd"
    unfolding base_date_def by simp_all
  have 2: "calculate_end_date sd md f ts di st
       = calculate_end_date (base_date sd f st) md f ts di None"
    by (rule calculate_end_date_base)
  have 3: "valid_datetime d \<and>
        (\<exists>n. additional_doses ts md = Inr n \<and>
           dt_to_us d = dt_to_us (base_date sd f st) + n * di * unit_us f)"
    if d: "calculate_end_date sd md f ts di st = Inr d"
  proof -
    from d obtain n where f: "f \<in> {''HOUR(S)'', ''DAY(S)'', ''WEEK(S)''}"
      and n: "additional_doses ts md = Inr n" by (rule calculate_end_date_InrD)
    from calculate_end_date_result [OF f n, where sd = sd and di = di and st = st] d n
    show ?thesis by simp
  qed
  from 1 2 3 show ?thesis by blast
qed

theorem end_date_anchor_witness:
  "calculate_end_date \<lparr>ordinal = 739252, hour = 0, minute = 0, second = 0, microsecond = 0\<rparr>
     1 ''HOUR(S)'' 3 8
     (Some \<lparr>ordinal = 739252, hour = 9, minute = 30, second = 0, microsecond = 0\<rparr>) =
   Inr \<lparr>ordinal = 739253, hour = 1, minute = 30, second = 0, microsecond = 0\<rparr>
   \<and> additional_doses 3 1 = Inr 2
   \<and> dt_to_us \<lparr>ordinal = 739253, hour = 1, minute = 30, second = 0, microsecond = 0\<rparr> =
       dt_to_us \<lparr>ordinal = 739252, hour = 9, minute = 30, second = 0, microsecond = 0\<rparr>
       + 2 * 8 * unit_us ''HOUR(S)''"
  using end_date_anchor [where md = 1 and ts = 3 and f = "''HOUR(S)''" and di = 8
      and st = "Some \<lparr>ordinal = 739252, hour = 9, minute = 30, second = 0, microsecond = 0\<rparr>"
      and sd = "\<lparr>ordinal = 739252, hour = 0, minute = 0, second = 0, microsecond = 0\<rparr>"
      and d = "\<lparr>ordinal = 739253, hour = 1, minute = 30, second = 0, microsecond = 0\<rparr>"]
    end_eval_hours
  by (simp add: doses_eval base_date_def)

text \<open>
  C8 (as stated): any unrecognized \<open>repeat_unit\<close> or \<open>dosage_frequency\<close> fails with a
  \<^verbatim>\<open>ValueError\<close>.  This fails: the repeat unit is only looked at inside the loop, so with
  \<open>repeat_reminders = 0\<close> an unknown repeat unit is accepted; and with \<open>max_dosage = 0\<close> an
  unknown frequency gives \<^verbatim>\<open>ZeroDivisionError\<close>.
\<close>

theorem unit_recognition_counterexample:
  "calculate_reminder_dates
     \<lparr>ordinal = 739261, hour = 0, minute = 0, second = 0, microsecond = 0\<rparr>
     3 ''DAY(S)'' 0 1 ''MONTH(S)'' None =
   Inr [\<lparr>ordinal = 739258, hour = 8, minute = 0, second = 0, microsecond = 0\<rparr>]
   \<and> calculate_end_date
       \<lparr>ordinal = 739252, hour = 0, minute = 0, second = 0, microsecond = 0\<rparr>
       0 ''MONTH(S)'' 20 1 None = Inl ZeroDivisionError"
  by code_simp

text \<open>
  C8 (amended): \<^verbatim>\<open>calculate_reminder_dates\<close> accepts exactly \<open>WEEK(S)\<close>, \<open>DAY(S)\<close> and \<open>(HOUR(S))\<close>
  as \<open>reminder_unit\<close>: any other string, \<open>HOUR(S)\<close> included, fails at once with
  \<open>ValueError: Invalid reminder unit\<close>, and the three tokens never do.  An unrecognized
  \<open>repeat_unit\<close> fails with \<open>ValueError: Invalid repeat unit\<close> only when the first reminder was
  computed and \<open>repeat_reminders \<ge> 1\<close>; with \<open>repeat_reminders < 1\<close> the call returns the single
  first reminder.  An unrecognized \<open>dosage_frequency\<close> fails with \<open>ValueError: Invalid dosage
  frequency\<close> when the division succeeds, and with the error of the division otherwise.
\<close>

theorem unit_recognition:
  "(ru \<notin> {''WEEK(S)'', ''DAY(S)'', ''(HOUR(S))''} \<longrightarrow>
      calculate_reminder_dates e dp ru rr ri rpu drt
        = Inl (ValueError (''Invalid reminder unit: '' @ ru)))
   \<and> calculate_reminder_dates e dp ''HOUR(S)'' rr ri rpu drt
        = Inl (ValueError ''Invalid reminder unit: HOUR(S)'')
   \<and> (ru \<in> {''WEEK(S)'', ''DAY(S)'', ''(HOUR(S))''} \<longrightarrow>
      calculate_reminder_dates e dp ru rr ri rpu drt
        \<noteq> Inl (ValueError (''Invalid reminder unit: '' @ ru)))
   \<and> (rpu \<notin> {''WEEK(S)'', ''DAY(S)'', ''HOUR(S)''} \<and>
      first_reminder_normalized e dp ru drt = Inr fr \<longrightarrow>
      calculate_reminder_dates e dp ru rr ri rpu drt
        = (if 1 \<le> rr then Inl (ValueError (''Invalid repeat unit: '' @ rpu)) else Inr [fr]))
   \<and> (f \<notin> {''HOUR(S)'', ''DAY(S)'', ''WEEK(S)''} \<longrightarrow>
      calculate_end_date sd md f ts di st
        = (case additional_doses ts md of
             Inl err \<Rightarrow> Inl err
           | Inr n \<Rightarrow> Inl (ValueError (''Invalid dosage frequency: '' @ f))))"
proof -
  have 1: "calculate_reminder_dates e dp ru rr ri rpu drt
        = Inl (ValueError (''Invalid reminder unit: '' @ ru))"
    if "ru \<notin> {''WEEK(S)'', ''DAY(S)'', ''(HOUR(S))''}" for ru
    unfolding calculate_reminder_dates_def first_reminder_normalized_def Let_def
      first_reminder_of_invalid [OF that] by simp
  have 2: "calculate_reminder_dates e dp ''HOUR(S)'' rr ri rpu drt
        = Inl (ValueError ''Invalid reminder unit: HOUR(S)'')"
    using 1 [of "''HOUR(S)''"] by simp
  have 3: "calculate_reminder_dates e dp ru rr ri rpu drt
        \<noteq> Inl (ValueError (''Invalid reminder unit: '' @ ru))"
    if ru: "ru \<in> {''WEEK(S)'', ''DAY(S)'', ''(HOUR(S))''}"
  proof (cases "first_reminder_normalized e dp ru drt")
    case (Inl err)
    with first_reminder_normalized_error [OF ru Inl] show ?thesis
      unfolding calculate_reminder_dates_def by simp
  next
    case (Inr fr')
    show ?thesis
    proof
      assume "calculate_reminder_dates e dp ru rr ri rpu drt
        = Inl (ValueError (''Invalid reminder unit: '' @ ru))"
      with Inr have "repeat_loop fr' rr ri rpu 1 [fr']
        = Inl (ValueError (''Invalid reminder unit: '' @ ru))"
        unfolding calculate_reminder_dates_def by simp
      from repeat_loop_error [OF this] show False by simp
    qed
  qed
  have 4: "calculate_reminder_dates e dp ru rr ri rpu drt
        = (if 1 \<le> rr then Inl (ValueError (''Invalid repeat unit: '' @ rpu)) else Inr [fr])"
    if "rpu \<notin> {''WEEK(S)'', ''DAY(S)'', ''HOUR(S)''}"
      "first_reminder_normalized e dp ru drt = Inr fr"
    unfolding calculate_reminder_dates_def that(2) using repeat_loop_invalid_unit [OF that(1)]
    by simp
  have 5: "calculate_end_date sd md f ts di st
        = (case additional_doses ts md of
             Inl err \<Rightarrow> Inl err
           | Inr n \<Rightarrow> Inl (ValueError (''Invalid dosage frequency: '' @ f)))"
    if "f \<notin> {''HOUR(S)'', ''DAY(S)'', ''WEEK(S)''}"
    using that unfolding calculate_end_date_def Let_def by (simp split: sum.splits)
  from 1 [of ru] 2 3 4 5 show ?thesis by blast
qed

theorem unit_recognition_witness:
  "calculate_reminder_dates
     \<lparr>ordinal = 739261, hour = 0, minute = 0, second = 0, microsecond = 0\<rparr>
     3 ''MONTH(S)'' 2 1 ''DAY(S)'' None = Inl (ValueError ''Invalid reminder unit: MONTH(S)'')
   \<and> calculate_reminder_dates
       \<lparr>ordinal = 739261, hour = 0, minute = 0, second = 0, microsecond = 0\<rparr>
       3 ''DAY(S)'' 2 1 ''DAY(S)'' None \<noteq> Inl (ValueError ''Invalid reminder unit: DAY(S)'')
   \<and> first_reminder_normalized
       \<lparr>ordinal = 739261, hour = 0, minute = 0, second = 0, microsecond = 0\<rparr>
       3 ''DAY(S)'' None =
     Inr \<lparr>ordinal = 739258, hour = 8, minute = 0, second = 0, microsecond = 0\<rparr>
   \<and> calculate_reminder_dates
       \<lparr>ordinal = 739261, hour = 0, minute = 0, second = 0, microsecond = 0\<rparr>
       3 ''DAY(S)'' 2 1 ''MONTH(S)'' None = Inl (ValueError ''Invalid repeat unit: MONTH(S)'')
   \<and> calculate_end_date
       \<lparr>ordinal = 739252, hour = 0, minute = 0, second = 0, microsecond = 0\<rparr>
       2 ''MONTH(S)'' 20 1 None = Inl (ValueError ''Invalid dosage frequency: MONTH(S)'')"
  using
    unit_recognition [where ru = "''MONTH(S)''" and dp = 3 and rr = 2 and ri = 1
      and rpu = "''DAY(S)''" and drt = None and f = "''MONTH(S)''" and md = 2 and ts = 20
      and di = 1 and st = None
      and e = "\<lparr>ordinal = 739261, hour = 0, minute = 0, second = 0, microsecond = 0\<rparr>"
      and sd = "\<lparr>ordinal = 739252, hour = 0, minute = 0, second = 0, microsecond = 0\<rparr>"]
    unit_recognition [where ru = "''DAY(S)''" and dp = 3 and rr = 2 and ri = 1
      and rpu = "''DAY(S)''" and drt = None and f = "''MONTH(S)''" and md = 2 and ts = 20
      and di = 1 and st = None
      and e = "\<lparr>ordinal = 739261, hour = 0, minute = 0, second = 0, microsecond = 0\<rparr>"
      and sd = "\<lparr>ordinal = 739252, hour = 0, minute = 0, second = 0, microsecond = 0\<rparr>"]
    unit_recognition [where ru = "''DAY(S)''" and dp = 3 and rr = 2 and ri = 1
      and rpu = "''MONTH(S)''" and drt = None and f = "''MONTH(S)''" and md = 2 and ts = 20
      and di = 1 and st = None
      and e = "\<lparr>ordinal = 739261, hour = 0, minute = 0, second = 0, microsecond = 0\<rparr>"
      and sd = "\<lparr>ordinal = 739252, hour = 0, minute = 0, second = 0, microsecond = 0\<rparr>"
      and fr = "\<lparr>ordinal = 739258, hour = 8, minute = 0, second = 0, microsecond = 0\<rparr>"]
  by (simp add: first_eval doses_eval)

section \<open>When the calculations return\<close>

lemma timedelta_new_normal:
  assumes "timedelta_new d s us = Inr t"
  shows "0 \<le> seconds t" "seconds t < 86400" "0 \<le> microseconds t" "microseconds t < 1000000"
proof -
  from assms have t: "t = \<lparr>days = d + (s + us div 1000000) div 86400,
      seconds = (s + us div 1000000) mod 86400, microseconds = us mod 1000000\<rparr>"
    unfolding timedelta_new_def Let_def by (auto split: if_splits)
  show "0 \<le> seconds t" "seconds t < 86400" "0 \<le> microseconds t" "microseconds t < 1000000"
    unfolding t by simp_all
qed

lemma td_days_bounds:
  assumes "0 \<le> seconds t" "seconds t < 86400" "0 \<le> microseconds t" "microseconds t < 1000000"
  shows "days t * 86400000000 \<le> td_to_us t" "td_to_us t < days t * 86400000000 + 86400000000"
  unfolding td_to_us_def using assms by (simp_all add: algebra_simps)

lemma timedelta_neg_success:
  assumes n: "0 \<le> seconds t" "seconds t < 86400" "0 \<le> microseconds t"
      "microseconds t < 1000000"
    and k: "0 \<le> td_to_us t" "td_to_us t \<le> MAXORDINAL * 86400000000"
  shows "\<exists>t'. timedelta_neg t = Inr t' \<and> td_to_us t' = - td_to_us t"
proof -
  note b = td_days_bounds [OF n]
  from b(2) k(1) have d0: "0 \<le> days t" by simp
  from b(1) k(2) have d1: "days t \<le> MAXORDINAL" by simp
  define c where "c = (- microseconds t) div 1000000"
  have "- 1000000 \<le> - microseconds t" using n by simp
  then have "(- 1000000) div 1000000 \<le> c" unfolding c_def by (rule zdiv_mono1) simp
  then have c1: "- 1 \<le> c" by simp
  have "- microseconds t \<le> 0" using n by simp
  then have "c \<le> 0 div 1000000" unfolding c_def by (rule zdiv_mono1) simp
  then have c2: "c \<le> 0" by simp
  define s1 where "s1 = - seconds t + c"
  define q where "q = s1 div 86400"
  have "- 86400 \<le> s1" using n c1 by (simp add: s1_def)
  then have "(- 86400) div 86400 \<le> q" unfolding q_def by (rule zdiv_mono1) simp
  then have q1: "- 1 \<le> q" by simp
  have "s1 \<le> 0" using n c2 by (simp add: s1_def)
  then have "q \<le> 0 div 86400" unfolding q_def by (rule zdiv_mono1) simp
  then have q2: "q \<le> 0" by simp
  from d0 d1 q1 q2 have ok: "\<not> 999999999 < \<bar>- days t + q\<bar>" by (simp add: MAXORDINAL_def)
  have "timedelta_neg t = (if 999999999 < \<bar>- days t + q\<bar> then Inl OverflowError
      else Inr \<lparr>days = - days t + q, seconds = s1 mod 86400,
                microseconds = (- microseconds t) mod 1000000\<rparr>)"
    unfolding timedelta_neg_def timedelta_new_def Let_def q_def s1_def c_def ..
  with ok obtain t' where t': "timedelta_neg t = Inr t'" by simp
  then have "timedelta_new (- days t) (- seconds t) (- microseconds t) = Inr t'"
    unfolding timedelta_neg_def .
  from timedelta_new_us [OF this] have "td_to_us t' = - td_to_us t"
    unfolding td_to_us_def by (simp add: algebra_simps)
  with t' show ?thesis by blast
qed

lemma dt_sub_success:
  assumes v: "valid_datetime e" and td: "timedelta_new a b c = Inr t"
    and k: "0 \<le> td_to_us t" "td_to_us t \<le> (ordinal e - 1) * 86400000000"
  shows "\<exists>d. dt_sub e t = Inr d \<and> valid_datetime d \<and> dt_to_us d = dt_to_us e - td_to_us t
    \<and> ordinal d \<le> ordinal e"
proof -
  note n = timedelta_new_normal [OF td]
  from v have o: "1 \<le> ordinal e" "ordinal e \<le> MAXORDINAL"
    and tb: "0 \<le> hour e" "hour e < 24" "0 \<le> minute e" "minute e < 60"
    "0 \<le> second e" "second e < 60" "0 \<le> microsecond e" "microsecond e < 1000000"
    unfolding valid_datetime_def by simp_all
  note r = dt_to_us_range [OF tb]
  from k(2) o(2) have "td_to_us t \<le> MAXORDINAL * 86400000000"
    by (simp add: algebra_simps)
  from timedelta_neg_success [OF n k(1) this] obtain t' where t': "timedelta_neg t = Inr t'"
    and u: "td_to_us t' = - td_to_us t" by blast
  have "\<exists>d. dt_add e t' = Inr d"
  proof (rule dt_add_success)
    from r(1) k(2) show "86400000000 \<le> dt_to_us e + td_to_us t'"
      unfolding u by (simp add: algebra_simps)
    from dt_to_us_valid_range(2) [OF v] k(1)
    show "dt_to_us e + td_to_us t' < (MAXORDINAL + 1) * 86400000000"
      unfolding u by simp
  qed
  then obtain d where d: "dt_add e t' = Inr d" ..
  have s: "dt_sub e t = Inr d" unfolding dt_sub_def t' using d by simp
  have vd: "valid_datetime d" using d by (rule dt_add_valid)
  have ud: "dt_to_us d = dt_to_us e - td_to_us t" using dt_add_us [OF d] u by simp
  from vd have tb': "0 \<le> hour d" "hour d < 24" "0 \<le> minute d" "minute d < 60"
    "0 \<le> second d" "second d < 60" "0 \<le> microsecond d" "microsecond d < 1000000"
    unfolding valid_datetime_def by simp_all
  note r' = dt_to_us_range [OF tb']
  from r'(1) ud k(1) r(2) have "ordinal d \<le> ordinal e" by simp
  with s vd ud show ?thesis by blast
qed

lemma first_reminder_of_success:
  assumes v: "valid_datetime e" and ru: "ru \<in> {''WEEK(S)'', ''DAY(S)'', ''(HOUR(S))''}"
    and dp: "0 \<le> dp" "7 * dp < ordinal e"
  shows "\<exists>d. first_reminder_of e dp ru = Inr d \<and> valid_datetime d \<and> ordinal d \<le> ordinal e"
proof -
  define f where "f = (if ru = ''(HOUR(S))'' then ''HOUR(S)'' else ru)"
  have f: "f \<in> {''HOUR(S)'', ''DAY(S)'', ''WEEK(S)''}" using ru unfolding f_def by auto
  from f obtain td where td: "td = (if f = ''HOUR(S)'' then timedelta_hours dp
           else if f = ''DAY(S)'' then timedelta_days dp else timedelta_weeks dp)"
    and r1: "td = Inl OverflowError \<or> (\<exists>t. td = Inr t \<and> td_to_us t = dp * unit_us f)"
    and r2: "0 \<le> dp \<and> dp * unit_us f \<le> MAXORDINAL * 86400000000 \<longrightarrow> (\<exists>t. td = Inr t)"
    by (rule unit_timedelta)
  have fo: "first_reminder_of e dp ru =
      (case td of Inl err \<Rightarrow> Inl err | Inr t \<Rightarrow> dt_sub e t)"
    using ru unfolding first_reminder_of_def td f_def by auto
  from v have o: "1 \<le> ordinal e" "ordinal e \<le> MAXORDINAL"
    unfolding valid_datetime_def by simp_all
  from f have u: "0 \<le> unit_us f" "unit_us f \<le> 604800000000" unfolding unit_us_def by auto
  from dp(1) u(2) have "dp * unit_us f \<le> dp * 604800000000" by (rule mult_left_mono [rotated])
  with dp(2) have kb: "dp * unit_us f \<le> (ordinal e - 1) * 86400000000"
    by (simp add: algebra_simps)
  with o(2) have "dp * unit_us f \<le> MAXORDINAL * 86400000000" by (simp add: algebra_simps)
  with dp(1) r2 obtain t where t: "td = Inr t" by blast
  with r1 have tu: "td_to_us t = dp * unit_us f" by simp
  from dp(1) u(1) have k0: "0 \<le> td_to_us t" unfolding tu by simp
  from t obtain a b c where tn: "timedelta_new a b c = Inr t"
    unfolding td timedelta_hours_def timedelta_days_def timedelta_weeks_def
    by (auto split: if_splits)
  from dt_sub_success [OF v tn k0] kb tu show ?thesis unfolding fo t by auto
qed

lemma first_reminder_normalized_success:
  assumes v: "valid_datetime e" and ru: "ru \<in> {''WEEK(S)'', ''DAY(S)'', ''(HOUR(S))''}"
    and dp: "0 \<le> dp" "7 * dp < ordinal e"
    and h: "dict_get (default_time drt) ''hour'' = Inr h" "0 \<le> h" "h \<le> 23"
    and m: "dict_get (default_time drt) ''minute'' = Inr m" "0 \<le> m" "m \<le> 59"
  shows "\<exists>fr. first_reminder_normalized e dp ru drt = Inr fr \<and> valid_datetime fr \<and>
    ordinal fr \<le> ordinal e"
proof -
  from first_reminder_of_success [OF v ru dp] obtain d where
    d: "first_reminder_of e dp ru = Inr d" "valid_datetime d" "ordinal d \<le> ordinal e"
    by blast
  have "first_reminder_normalized e dp ru drt =
      Inr (d\<lparr>hour := h, minute := m, second := 0, microsecond := 0\<rparr>)"
    unfolding first_reminder_normalized_def Let_def d(1) h(1) m(1) dt_replace_time_def
    using h(2,3) m(2,3) by simp
  moreover have "valid_datetime (d\<lparr>hour := h, minute := m, second := 0, microsecond := 0\<rparr>)"
    using d(2) h(2,3) m(2,3) unfolding valid_datetime_def by simp
  ultimately show ?thesis using d(3) by simp
qed

lemma next_reminder_success:
  assumes v: "valid_datetime fr" and f: "ru \<in> {''HOUR(S)'', ''DAY(S)'', ''WEEK(S)''}"
    and k: "0 \<le> i * ri"
    and r: "dt_to_us fr + i * ri * unit_us ru < (MAXORDINAL + 1) * 86400000000"
  shows "\<exists>d. next_reminder fr ri ru i = Inr d"
proof -
  from f obtain td where td: "td = (if ru = ''HOUR(S)'' then timedelta_hours (i * ri)
           else if ru = ''DAY(S)'' then timedelta_days (i * ri) else timedelta_weeks (i * ri))"
    and r1: "td = Inl OverflowError \<or> (\<exists>t. td = Inr t \<and> td_to_us t = (i * ri) * unit_us ru)"
    and r2: "0 \<le> i * ri \<and> (i * ri) * unit_us ru \<le> MAXORDINAL * 86400000000
       \<longrightarrow> (\<exists>t. td = Inr t)"
    by (rule unit_timedelta)
  have c: "next_reminder fr ri ru i = (case td of Inl e \<Rightarrow> Inl e | Inr t \<Rightarrow> dt_add fr t)"
    using f unfolding next_reminder_def td by auto
  note b = dt_to_us_valid_range [OF v]
  from f have u: "0 \<le> unit_us ru" unfolding unit_us_def by auto
  with k have nn: "0 \<le> i * ri * unit_us ru" by simp
  from b(1) r have "i * ri * unit_us ru \<le> MAXORDINAL * 86400000000"
    by (simp add: MAXORDINAL_def)
  with k r2 obtain t where t: "td = Inr t" by blast
  with r1 have tu: "td_to_us t = i * ri * unit_us ru" by simp
  have "\<exists>d. dt_add fr t = Inr d"
  proof (rule dt_add_success)
    show "86400000000 \<le> dt_to_us fr + td_to_us t"
      unfolding tu using b(1) nn by linarith
    show "dt_to_us fr + td_to_us t < (MAXORDINAL + 1) * 86400000000"
      unfolding tu by (rule r)
  qed
  then show ?thesis unfolding c t by simp
qed

lemma repeat_loop_success:
  "(\<forall>j. i \<le> j \<and> j \<le> rr \<longrightarrow> (\<exists>d. next_reminder fr ri ru j = Inr d)) \<Longrightarrow>
     \<exists>s. repeat_loop fr rr ri ru i acc = Inr s"
proof (induction fr rr ri ru i acc rule: repeat_loop.induct)
  case (1 fr rr ri ru i acc)
  show ?case
  proof (cases "i < rr + 1")
    case False
    then show ?thesis by (simp add: repeat_loop.simps [of fr rr ri ru i acc])
  next
    case True
    with "1.prems" obtain d where d: "next_reminder fr ri ru i = Inr d" by auto
    have "\<forall>j. i + 1 \<le> j \<and> j \<le> rr \<longrightarrow> (\<exists>d. next_reminder fr ri ru j = Inr d)"
      using "1.prems" by auto
    from "1.IH" [OF True d this] obtain s where
      "repeat_loop fr rr ri ru (i + 1) (acc @ [d]) = Inr s" ..
    with True d show ?thesis by (simp add: repeat_loop.simps [of fr rr ri ru i acc])
  qed
qed

lemma calculate_reminder_dates_success:
  assumes v: "valid_datetime e" and ru: "ru \<in> {''WEEK(S)'', ''DAY(S)'', ''(HOUR(S))''}"
    and dp: "0 \<le> dp" "7 * dp < ordinal e"
    and h: "dict_get (default_time drt) ''hour'' = Inr h" "0 \<le> h" "h \<le> 23"
    and m: "dict_get (default_time drt) ''minute'' = Inr m" "0 \<le> m" "m \<le> 59"
    and rpu: "rpu \<in> {''HOUR(S)'', ''DAY(S)'', ''WEEK(S)''}"
    and rr: "0 \<le> rr" and ri: "0 \<le> ri" and b: "ordinal e + 7 * rr * ri \<le> MAXORDINAL"
  shows "\<exists>s. calculate_reminder_dates e dp ru rr ri rpu drt = Inr s"
proof -
  from first_reminder_normalized_success [OF v ru dp h m] obtain fr where
    fr: "first_reminder_normalized e dp ru drt = Inr fr" and vf: "valid_datetime fr"
    and o: "ordinal fr \<le> ordinal e" by blast
  from vf have tb: "0 \<le> hour fr" "hour fr < 24" "0 \<le> minute fr" "minute fr < 60"
    "0 \<le> second fr" "second fr < 60" "0 \<le> microsecond fr" "microsecond fr < 1000000"
    unfolding valid_datetime_def by simp_all
  note r = dt_to_us_range [OF tb]
  from rpu have u: "0 \<le> unit_us rpu" "unit_us rpu \<le> 604800000000"
    unfolding unit_us_def by auto
  have "\<exists>d. next_reminder fr ri rpu j = Inr d" if j: "1 \<le> j" "j \<le> rr" for j
  proof (rule next_reminder_success [OF vf rpu])
    from j ri show k0: "0 \<le> j * ri" by simp
    from j(2) ri have le: "j * ri \<le> rr * ri" by (rule mult_right_mono)
    from rr ri have nn: "0 \<le> rr * ri" by simp
    have "j * ri * unit_us rpu \<le> rr * ri * 604800000000"
      using le u(2) nn u(1) by (rule mult_mono)
    with r(2) o b show "dt_to_us fr + j * ri * unit_us rpu < (MAXORDINAL + 1) * 86400000000"
      by (simp add: algebra_simps)
  qed
  then have "\<forall>j. 1 \<le> j \<and> j \<le> rr \<longrightarrow> (\<exists>d. next_reminder fr ri rpu j = Inr d)" by blast
  from repeat_loop_success [OF this] show ?thesis
    unfolding calculate_reminder_dates_def fr by simp
qed

section \<open>The claims on the reminder schedule\<close>

lemma schedule_eval_wrap:
  "calculate_reminder_dates
     \<lparr>ordinal = 739261, hour = 13, minute = 45, second = 27, microsecond = 123456\<rparr>
     3 ''DAY(S)'' 2 5 ''HOUR(S)'' (Some [''hour'' \<mapsto> 21, ''minute'' \<mapsto> 30]) =
   Inr [\<lparr>ordinal = 739258, hour = 21, minute = 30, second = 0, microsecond = 0\<rparr>,
        \<lparr>ordinal = 739259, hour = 2, minute = 30, second = 0, microsecond = 0\<rparr>,
        \<lparr>ordinal = 739259, hour = 7, minute = 30, second = 0, microsecond = 0\<rparr>]"
  by code_simp


lemma valid_eval_end:
  "valid_datetime \<lparr>ordinal = 739261, hour = 13, minute = 45, second = 27, microsecond = 123456\<rparr>"
  by (simp add: valid_datetime_def MAXORDINAL_def)

lemma default_time_eval:
  "dict_get (default_time (Some [''hour'' \<mapsto> 21, ''minute'' \<mapsto> 30])) ''hour'' = Inr 21"
  "dict_get (default_time (Some [''hour'' \<mapsto> 21, ''minute'' \<mapsto> 30])) ''minute'' = Inr 30"
  unfolding default_time_def dict_get_def by simp_all

lemma length_if_returns:
  assumes "calculate_reminder_dates e dp ru rr ri rpu drt = Inr s" and "0 \<le> rr"
  shows "int (length s) = rr + 1 \<and>
    (rr = 0 \<longrightarrow> (\<exists>fr. first_reminder_normalized e dp ru drt = Inr fr \<and> s = [fr]))"
proof -
  from assms(1) obtain fr ns where fr: "first_reminder_normalized e dp ru drt = Inr fr"
    and s: "s = fr # ns" and len: "length ns = nat rr"
    by (rule calculate_reminder_dates_InrD)
  from s len assms(2) have "int (length s) = rr + 1" by simp
  moreover have "\<exists>fr. first_reminder_normalized e dp ru drt = Inr fr \<and> s = [fr]" if "rr = 0"
    using that fr s len by simp
  ultimately show ?thesis by blast
qed



text \<open>
  C5: a call of \<^verbatim>\<open>calculate_reminder_dates\<close> with \<open>repeat_reminders \<ge> 0\<close> that returns, returns a
  schedule of exactly \<open>repeat_reminders + 1\<close> elements; with \<open>repeat_reminders = 0\<close> the schedule
  is the single normalized first reminder.  The call does return such a schedule when the end
  date is valid, the units are recognized, the default time is in range, \<open>duration_prior\<close> and
  \<open>repeat_intervals\<close> are not negative and the first and the last reminder stay within the
  years 1 to 9999 (at most seven days per unit).
\<close>

theorem schedule_length:
  "(calculate_reminder_dates e dp ru rr ri rpu drt = Inr s \<and> 0 \<le> rr \<longrightarrow>
      int (length s) = rr + 1 \<and>
      (rr = 0 \<longrightarrow> (\<exists>fr. first_reminder_normalized e dp ru drt = Inr fr \<and> s = [fr])))
   \<and> (valid_datetime e \<and> ru \<in> {''WEEK(S)'', ''DAY(S)'', ''(HOUR(S))''} \<and>
      0 \<le> dp \<and> 7 * dp < ordinal e \<and>
      dict_get (default_time drt) ''hour'' = Inr h \<and> 0 \<le> h \<and> h \<le> 23 \<and>
      dict_get (default_time drt) ''minute'' = Inr m \<and> 0 \<le> m \<and> m \<le> 59 \<and>
      rpu \<in> {''HOUR(S)'', ''DAY(S)'', ''WEEK(S)''} \<and>
      0 \<le> rr \<and> 0 \<le> ri \<and> ordinal e + 7 * rr * ri \<le> MAXORDINAL \<longrightarrow>
      (\<exists>s'. calculate_reminder_dates e dp ru rr ri rpu drt = Inr s' \<and>
         int (length s') = rr + 1))"
proof -
  have 1: "int (length s) = rr + 1 \<and>
      (rr = 0 \<longrightarrow> (\<exists>fr. first_reminder_normalized e dp ru drt = Inr fr \<and> s = [fr]))"
    if a: "calculate_reminder_dates e dp ru rr ri rpu drt = Inr s \<and> 0 \<le> rr"
  proof -
    from a have "calculate_reminder_dates e dp ru rr ri rpu drt = Inr s" "0 \<le> rr" by simp_all
    then show ?thesis
      by (rule length_if_returns)
  qed
  have 2: "\<exists>s'. calculate_reminder_dates e dp ru rr ri rpu drt = Inr s' \<and>
         int (length s') = rr + 1"
    if c: "valid_datetime e \<and> ru \<in> {''WEEK(S)'', ''DAY(S)'', ''(HOUR(S))''} \<and>
      0 \<le> dp \<and> 7 * dp < ordinal e \<and>
      dict_get (default_time drt) ''hour'' = Inr h \<and> 0 \<le> h \<and> h \<le> 23 \<and>
      dict_get (default_time drt) ''minute'' = Inr m \<and> 0 \<le> m \<and> m \<le> 59 \<and>
      rpu \<in> {''HOUR(S)'', ''DAY(S)'', ''WEEK(S)''} \<and>
      0 \<le> rr \<and> 0 \<le> ri \<and> ordinal e + 7 * rr * ri \<le> MAXORDINAL"
  proof -
    from c have "\<exists>s'. calculate_reminder_dates e dp ru rr ri rpu drt = Inr s'"
      by (intro calculate_reminder_dates_success [where h = h and m = m]) simp_all
    then obtain s' where s': "calculate_reminder_dates e dp ru rr ri rpu drt = Inr s'" ..
    from c have "0 \<le> rr" by simp
    with s' have "int (length s') = rr + 1" using length_if_returns by blast
    with s' show ?thesis by blast
  qed
  show ?thesis by (rule conjI; rule impI) (erule 1, erule 2)
qed

theorem schedule_length_witness:
  "calculate_reminder_dates
     \<lparr>ordinal = 739261, hour = 13, minute = 45, second = 27, microsecond = 123456\<rparr>
     3 ''DAY(S)'' 2 5 ''HOUR(S)'' (Some [''hour'' \<mapsto> 21, ''minute'' \<mapsto> 30]) =
   Inr [\<lparr>ordinal = 739258, hour = 21, minute = 30, second = 0, microsecond = 0\<rparr>,
        \<lparr>ordinal = 739259, hour = 2, minute = 30, second = 0, microsecond = 0\<rparr>,
        \<lparr>ordinal = 739259, hour = 7, minute = 30, second = 0, microsecond = 0\<rparr>]
   \<and> valid_datetime \<lparr>ordinal = 739261, hour = 13, minute = 45, second = 27, microsecond = 123456\<rparr>
   \<and> (7::int) * 3 < ordinal \<lparr>ordinal = 739261, hour = 13, minute = 45, second = 27, microsecond = 123456\<rparr>
   \<and> dict_get (default_time (Some [''hour'' \<mapsto> 21, ''minute'' \<mapsto> 30])) ''hour'' = Inr 21
   \<and> dict_get (default_time (Some [''hour'' \<mapsto> 21, ''minute'' \<mapsto> 30])) ''minute'' = Inr 30
   \<and> ordinal \<lparr>ordinal = 739261, hour = 13, minute = 45, second = 27, microsecond = 123456\<rparr> + 7 * 2 * 5 \<le> MAXORDINAL
   \<and> int (length
       [\<lparr>ordinal = 739258, hour = 21, minute = 30, second = 0, microsecond = 0\<rparr>,
        \<lparr>ordinal = 739259, hour = 2, minute = 30, second = 0, microsecond = 0\<rparr>,
        \<lparr>ordinal = 739259, hour = 7, minute = 30, second = 0, microsecond = 0\<rparr>]) = 2 + 1
   \<and> calculate_reminder_dates
       \<lparr>ordinal = 739261, hour = 0, minute = 0, second = 0, microsecond = 0\<rparr>
       3 ''DAY(S)'' 0 1 ''DAY(S)'' None =
     Inr [\<lparr>ordinal = 739258, hour = 8, minute = 0, second = 0, microsecond = 0\<rparr>]
   \<and> first_reminder_normalized
       \<lparr>ordinal = 739261, hour = 0, minute = 0, second = 0, microsecond = 0\<rparr>
       3 ''DAY(S)'' None =
     Inr \<lparr>ordinal = 739258, hour = 8, minute = 0, second = 0, microsecond = 0\<rparr>"
  using
    schedule_length [where e = "\<lparr>ordinal = 739261, hour = 13, minute = 45, second = 27, microsecond = 123456\<rparr>"
      and dp = 3 and ru = "''DAY(S)''" and rr = 2 and ri = 5 and rpu = "''HOUR(S)''"
      and drt = "Some [''hour'' \<mapsto> 21, ''minute'' \<mapsto> 30]" and h = 21 and m = 30
      and s = "[\<lparr>ordinal = 739258, hour = 21, minute = 30, second = 0, microsecond = 0\<rparr>,
        \<lparr>ordinal = 739259, hour = 2, minute = 30, second = 0, microsecond = 0\<rparr>,
        \<lparr>ordinal = 739259, hour = 7, minute = 30, second = 0, microsecond = 0\<rparr>]"]
    schedule_length [where e = "\<lparr>ordinal = 739261, hour = 0, minute = 0, second = 0, microsecond = 0\<rparr>"
      and dp = 3 and ru = "''DAY(S)''" and rr = 0 and ri = 1 and rpu = "''DAY(S)''"
      and drt = None and h = 8 and m = 0
      and s = "[\<lparr>ordinal = 739258, hour = 8, minute = 0, second = 0, microsecond = 0\<rparr>]"]
  by (simp add: schedule_eval_wrap schedule_eval_single valid_eval_end default_time_eval
      MAXORDINAL_def)






section \<open>The claim on the end date formula\<close>




lemma end_eval_large_single:
  "calculate_end_date \<lparr>ordinal = 739252, hour = 0, minute = 0, second = 0, microsecond = 0\<rparr>
     18014398509481985 ''DAY(S)'' 18014398509481984 1 None =
   Inr \<lparr>ordinal = 739252, hour = 0, minute = 0, second = 0, microsecond = 0\<rparr>"
  by code_simp




section \<open>Properties of the processing step\<close>

lemma serialize_eval_days:
  "serialize_reminder_dates
     [\<lparr>ordinal = 739258, hour = 8, minute = 0, second = 0, microsecond = 0\<rparr>,
      \<lparr>ordinal = 739259, hour = 8, minute = 0, second = 0, microsecond = 0\<rparr>,
      \<lparr>ordinal = 739260, hour = 8, minute = 0, second = 0, microsecond = 0\<rparr>] =
   [''2025-01-07T08:00:00'', ''2025-01-08T08:00:00'', ''2025-01-09T08:00:00'']"
  by code_simp

lemma process_success:
  assumes "h r = Some med"
    and "calculate_end_date (start_date med) (max_dosage med) (dosage_frequency med)
           (total_supply med) (dosage_interval med) (start_time med) = Inr ed"
    and "calculate_reminder_dates ed (duration_prior med) (reminder_unit med)
           (repeat_reminders med) (repeat_intervals med) (repeat_unit med) drt = Inr rds"
  shows "process_medication_reminders r drt h =
    (Inr \<lparr>out_medication = r, out_end_date = ed, out_reminder_dates = rds\<rparr>,
     h(r \<mapsto> med\<lparr>end_date := Some ed,
          reminder_dates := Some (serialize_reminder_dates rds)\<rparr>))"
  unfolding process_medication_reminders_def Let_def using assms by simp

lemma process_eval:
  "process_medication_reminders 0 None
     [0 \<mapsto> \<lparr>id' = 1, user_id = 1, med_name = ''Aspirin'', icon = 1, color = 1, details = None,
        max_dosage = 2, dosage_interval = 1, dosage_frequency = ''DAY(S)'', total_supply = 20,
        start_date = \<lparr>ordinal = 739252, hour = 0, minute = 0, second = 0, microsecond = 0\<rparr>,
        start_time = None, end_date = None, duration_prior = 3,
        reminder_unit = ''DAY(S)'', repeat_reminders = 2, repeat_intervals = 1,
        repeat_unit = ''DAY(S)'', reminder_dates = None,
        created_at = None\<rparr>] =
   (Inr \<lparr>out_medication = 0,
         out_end_date = \<lparr>ordinal = 739261, hour = 0, minute = 0, second = 0, microsecond = 0\<rparr>,
         out_reminder_dates =
          [\<lparr>ordinal = 739258, hour = 8, minute = 0, second = 0, microsecond = 0\<rparr>,
           \<lparr>ordinal = 739259, hour = 8, minute = 0, second = 0, microsecond = 0\<rparr>,
           \<lparr>ordinal = 739260, hour = 8, minute = 0, second = 0, microsecond = 0\<rparr>]\<rparr>,
    [0 \<mapsto> \<lparr>id' = 1, user_id = 1, med_name = ''Aspirin'', icon = 1, color = 1, details = None,
        max_dosage = 2, dosage_interval = 1, dosage_frequency = ''DAY(S)'', total_supply = 20,
        start_date = \<lparr>ordinal = 739252, hour = 0, minute = 0, second = 0, microsecond = 0\<rparr>,
        start_time = None, end_date = Some \<lparr>ordinal = 739261, hour = 0, minute = 0, second = 0, microsecond = 0\<rparr>, duration_prior = 3,
        reminder_unit = ''DAY(S)'', repeat_reminders = 2, repeat_intervals = 1,
        repeat_unit = ''DAY(S)'', reminder_dates = 
          Some [''2025-01-07T08:00:00'', ''2025-01-08T08:00:00'', ''2025-01-09T08:00:00''],
        created_at = None\<rparr>])"
proof -
  define M where "M = \<lparr>id' = 1, user_id = 1, med_name = ''Aspirin'', icon = 1, color = 1, details = None,
        max_dosage = 2, dosage_interval = 1, dosage_frequency = ''DAY(S)'', total_supply = 20,
        start_date = \<lparr>ordinal = 739252, hour = 0, minute = 0, second = 0, microsecond = 0\<rparr>,
        start_time = None, end_date = None, duration_prior = 3,
        reminder_unit = ''DAY(S)'', repeat_reminders = 2, repeat_intervals = 1,
        repeat_unit = ''DAY(S)'', reminder_dates = None,
        created_at = None\<rparr>"
  have h: "[0 \<mapsto> M] (0::nat) = Some M" by simp
  have 1: "calculate_end_date (start_date M) (max_dosage M) (dosage_frequency M)
           (total_supply M) (dosage_interval M) (start_time M) = Inr \<lparr>ordinal = 739261, hour = 0, minute = 0, second = 0, microsecond = 0\<rparr>"
    unfolding M_def by (simp add: end_eval_days)
  have 2: "calculate_reminder_dates \<lparr>ordinal = 739261, hour = 0, minute = 0, second = 0, microsecond = 0\<rparr>
      (duration_prior M) (reminder_unit M)
      (repeat_reminders M) (repeat_intervals M) (repeat_unit M) None = Inr [\<lparr>ordinal = 739258, hour = 8, minute = 0, second = 0, microsecond = 0\<rparr>,
           \<lparr>ordinal = 739259, hour = 8, minute = 0, second = 0, microsecond = 0\<rparr>,
           \<lparr>ordinal = 739260, hour = 8, minute = 0, second = 0, microsecond = 0\<rparr>]"
    unfolding M_def by (simp add: schedule_eval_days)
  have 3: "M\<lparr>end_date := Some \<lparr>ordinal = 739261, hour = 0, minute = 0, second = 0, microsecond = 0\<rparr>,
      reminder_dates := Some (serialize_reminder_dates
          [\<lparr>ordinal = 739258, hour = 8, minute = 0, second = 0, microsecond = 0\<rparr>,
           \<lparr>ordinal = 739259, hour = 8, minute = 0, second = 0, microsecond = 0\<rparr>,
           \<lparr>ordinal = 739260, hour = 8, minute = 0, second = 0, microsecond = 0\<rparr>])\<rparr> = \<lparr>id' = 1, user_id = 1, med_name = ''Aspirin'', icon = 1, color = 1, details = None,
        max_dosage = 2, dosage_interval = 1, dosage_frequency = ''DAY(S)'', total_supply = 20,
        start_date = \<lparr>ordinal = 739252, hour = 0, minute = 0, second = 0, microsecond = 0\<rparr>,
        start_time = None, end_date = Some \<lparr>ordinal = 739261, hour = 0, minute = 0, second = 0, microsecond = 0\<rparr>, duration_prior = 3,
        reminder_unit = ''DAY(S)'', repeat_reminders = 2, repeat_intervals = 1,
        repeat_unit = ''DAY(S)'', reminder_dates = 
          Some [''2025-01-07T08:00:00'', ''2025-01-08T08:00:00'', ''2025-01-09T08:00:00''],
        created_at = None\<rparr>"
    unfolding serialize_eval_days M_def by simp
  from process_success [where h = "[0 \<mapsto> M]" and r = 0 and med = M, OF h 1 2]
  show ?thesis unfolding 3 unfolding M_def by simp
qed

text \<open>
  C9: \<^verbatim>\<open>process_medication_reminders\<close> changes nothing in the store but the \<open>end_date\<close> and
  \<open>reminder_dates\<close> fields of the object it is given.  When it returns, the \<open>medication\<close> entry
  of the result is that same object, the \<open>end_date\<close> entry is the value of
  \<^verbatim>\<open>calculate_end_date\<close> and is the stored end date, and the \<open>reminder_dates\<close> entry is the
  value of \<^verbatim>\<open>calculate_reminder_dates\<close> and serializes to the stored \<open>reminder_dates\<close>.  It
  returns whenever the two calculations succeed.
\<close>

theorem process_medication_frame:
  assumes "h r = Some med" and "process_medication_reminders r drt h = (res, h')"
  shows "(\<forall>r'. r' \<noteq> r \<longrightarrow> h' r' = h r')
    \<and> (\<exists>med'. h' r = Some med'
         \<and> med'\<lparr>end_date := end_date med, reminder_dates := reminder_dates med\<rparr> = med
         \<and> (\<forall>out. res = Inr out \<longrightarrow>
              out_medication out = r
            \<and> calculate_end_date (start_date med) (max_dosage med) (dosage_frequency med)
                (total_supply med) (dosage_interval med) (start_time med)
                = Inr (out_end_date out)
            \<and> end_date med' = Some (out_end_date out)
            \<and> calculate_reminder_dates (out_end_date out) (duration_prior med)
                (reminder_unit med) (repeat_reminders med) (repeat_intervals med)
                (repeat_unit med) drt = Inr (out_reminder_dates out)
            \<and> reminder_dates med' = Some (serialize_reminder_dates (out_reminder_dates out))))
    \<and> (\<forall>ed rds.
          calculate_end_date (start_date med) (max_dosage med) (dosage_frequency med)
            (total_supply med) (dosage_interval med) (start_time med) = Inr ed
        \<and> calculate_reminder_dates ed (duration_prior med) (reminder_unit med)
            (repeat_reminders med) (repeat_intervals med) (repeat_unit med) drt = Inr rds
        \<longrightarrow> res = Inr \<lparr>out_medication = r, out_end_date = ed, out_reminder_dates = rds\<rparr>)"
proof (cases "calculate_end_date (start_date med) (max_dosage med) (dosage_frequency med)
                (total_supply med) (dosage_interval med) (start_time med)")
  case (Inl e)
  with assms have "res = Inl e" "h' = h"
    unfolding process_medication_reminders_def by simp_all
  with assms(1) Inl show ?thesis by simp
next
  case ed: (Inr ed)
  show ?thesis
  proof (cases "calculate_reminder_dates ed (duration_prior med) (reminder_unit med)
            (repeat_reminders med) (repeat_intervals med) (repeat_unit med) drt")
    case (Inl e)
    with assms ed have "res = Inl e" "h' = h(r \<mapsto> med\<lparr>end_date := Some ed\<rparr>)"
      unfolding process_medication_reminders_def Let_def by simp_all
    with ed Inl show ?thesis by simp
  next
    case (Inr rds)
    with assms ed have "res = Inr \<lparr>out_medication = r, out_end_date = ed,
        out_reminder_dates = rds\<rparr>"
      "h' = h(r \<mapsto> med\<lparr>end_date := Some ed,
          reminder_dates := Some (serialize_reminder_dates rds)\<rparr>)"
      unfolding process_medication_reminders_def Let_def by simp_all
    with ed Inr show ?thesis by simp
  qed
qed

theorem process_medication_frame_witness:
  "[0 \<mapsto> \<lparr>id' = 1, user_id = 1, med_name = ''Aspirin'', icon = 1, color = 1, details = None,
        max_dosage = 2, dosage_interval = 1, dosage_frequency = ''DAY(S)'', total_supply = 20,
        start_date = \<lparr>ordinal = 739252, hour = 0, minute = 0, second = 0, microsecond = 0\<rparr>,
        start_time = None, end_date = None, duration_prior = 3,
        reminder_unit = ''DAY(S)'', repeat_reminders = 2, repeat_intervals = 1,
        repeat_unit = ''DAY(S)'', reminder_dates = None,
        created_at = None\<rparr>] (0::nat) =
     Some \<lparr>id' = 1, user_id = 1, med_name = ''Aspirin'', icon = 1, color = 1, details = None,
        max_dosage = 2, dosage_interval = 1, dosage_frequency = ''DAY(S)'', total_supply = 20,
        start_date = \<lparr>ordinal = 739252, hour = 0, minute = 0, second = 0, microsecond = 0\<rparr>,
        start_time = None, end_date = None, duration_prior = 3,
        reminder_unit = ''DAY(S)'', repeat_reminders = 2, repeat_intervals = 1,
        repeat_unit = ''DAY(S)'', reminder_dates = None,
        created_at = None\<rparr>
   \<and> process_medication_reminders 0 None
     [0 \<mapsto> \<lparr>id' = 1, user_id = 1, med_name = ''Aspirin'', icon = 1, color = 1, details = None,
        max_dosage = 2, dosage_interval = 1, dosage_frequency = ''DAY(S)'', total_supply = 20,
        start_date = \<lparr>ordinal = 739252, hour = 0, minute = 0, second = 0, microsecond = 0\<rparr>,
        start_time = None, end_date = None, duration_prior = 3,
        reminder_unit = ''DAY(S)'', repeat_reminders = 2, repeat_intervals = 1,
        repeat_unit = ''DAY(S)'', reminder_dates = None,
        created_at = None\<rparr>] =
   (Inr \<lparr>out_medication = 0,
         out_end_date = \<lparr>ordinal = 739261, hour = 0, minute = 0, second = 0, microsecond = 0\<rparr>,
         out_reminder_dates =
          [\<lparr>ordinal = 739258, hour = 8, minute = 0, second = 0, microsecond = 0\<rparr>,
           \<lparr>ordinal = 739259, hour = 8, minute = 0, second = 0, microsecond = 0\<rparr>,
           \<lparr>ordinal = 739260, hour = 8, minute = 0, second = 0, microsecond = 0\<rparr>]\<rparr>,
    [0 \<mapsto> \<lparr>id' = 1, user_id = 1, med_name = ''Aspirin'', icon = 1, color = 1, details = None,
        max_dosage = 2, dosage_interval = 1, dosage_frequency = ''DAY(S)'', total_supply = 20,
        start_date = \<lparr>ordinal = 739252, hour = 0, minute = 0, second = 0, microsecond = 0\<rparr>,
        start_time = None, end_date = Some \<lparr>ordinal = 739261, hour = 0, minute = 0, second = 0, microsecond = 0\<rparr>, duration_prior = 3,
        reminder_unit = ''DAY(S)'', repeat_reminders = 2, repeat_intervals = 1,
        repeat_unit = ''DAY(S)'', reminder_dates = 
          Some [''2025-01-07T08:00:00'', ''2025-01-08T08:00:00'', ''2025-01-09T08:00:00''],
        created_at = None\<rparr>])
   \<and> [0 \<mapsto> \<lparr>id' = 1, user_id = 1, med_name = ''Aspirin'', icon = 1, color = 1, details = None,
        max_dosage = 2, dosage_interval = 1, dosage_frequency = ''DAY(S)'', total_supply = 20,
        start_date = \<lparr>ordinal = 739252, hour = 0, minute = 0, second = 0, microsecond = 0\<rparr>,
        start_time = None, end_date = Some \<lparr>ordinal = 739261, hour = 0, minute = 0, second = 0, microsecond = 0\<rparr>, duration_prior = 3,
        reminder_unit = ''DAY(S)'', repeat_reminders = 2, repeat_intervals = 1,
        repeat_unit = ''DAY(S)'', reminder_dates = 
          Some [''2025-01-07T08:00:00'', ''2025-01-08T08:00:00'', ''2025-01-09T08:00:00''],
        created_at = None\<rparr>] (1::nat) =
     [0 \<mapsto> \<lparr>id' = 1, user_id = 1, med_name = ''Aspirin'', icon = 1, color = 1, details = None,
        max_dosage = 2, dosage_interval = 1, dosage_frequency = ''DAY(S)'', total_supply = 20,
        start_date = \<lparr>ordinal = 739252, hour = 0, minute = 0, second = 0, microsecond = 0\<rparr>,
        start_time = None, end_date = None, duration_prior = 3,
        reminder_unit = ''DAY(S)'', repeat_reminders = 2, repeat_intervals = 1,
        repeat_unit = ''DAY(S)'', reminder_dates = None,
        created_at = None\<rparr>] (1::nat)
   \<and> end_date \<lparr>id' = 1, user_id = 1, med_name = ''Aspirin'', icon = 1, color = 1, details = None,
        max_dosage = 2, dosage_interval = 1, dosage_frequency = ''DAY(S)'', total_supply = 20,
        start_date = \<lparr>ordinal = 739252, hour = 0, minute = 0, second = 0, microsecond = 0\<rparr>,
        start_time = None, end_date = Some \<lparr>ordinal = 739261, hour = 0, minute = 0, second = 0, microsecond = 0\<rparr>, duration_prior = 3,
        reminder_unit = ''DAY(S)'', repeat_reminders = 2, repeat_intervals = 1,
        repeat_unit = ''DAY(S)'', reminder_dates = 
          Some [''2025-01-07T08:00:00'', ''2025-01-08T08:00:00'', ''2025-01-09T08:00:00''],
        created_at = None\<rparr> =
     Some (out_end_date \<lparr>out_medication = 0,
         out_end_date = \<lparr>ordinal = 739261, hour = 0, minute = 0, second = 0, microsecond = 0\<rparr>,
         out_reminder_dates =
          [\<lparr>ordinal = 739258, hour = 8, minute = 0, second = 0, microsecond = 0\<rparr>,
           \<lparr>ordinal = 739259, hour = 8, minute = 0, second = 0, microsecond = 0\<rparr>,
           \<lparr>ordinal = 739260, hour = 8, minute = 0, second = 0, microsecond = 0\<rparr>]\<rparr>)
   \<and> reminder_dates \<lparr>id' = 1, user_id = 1, med_name = ''Aspirin'', icon = 1, color = 1, details = None,
        max_dosage = 2, dosage_interval = 1, dosage_frequency = ''DAY(S)'', total_supply = 20,
        start_date = \<lparr>ordinal = 739252, hour = 0, minute = 0, second = 0, microsecond = 0\<rparr>,
        start_time = None, end_date = Some \<lparr>ordinal = 739261, hour = 0, minute = 0, second = 0, microsecond = 0\<rparr>, duration_prior = 3,
        reminder_unit = ''DAY(S)'', repeat_reminders = 2, repeat_intervals = 1,
        repeat_unit = ''DAY(S)'', reminder_dates = 
          Some [''2025-01-07T08:00:00'', ''2025-01-08T08:00:00'', ''2025-01-09T08:00:00''],
        created_at = None\<rparr> =
     Some (serialize_reminder_dates (out_reminder_dates \<lparr>out_medication = 0,
         out_end_date = \<lparr>ordinal = 739261, hour = 0, minute = 0, second = 0, microsecond = 0\<rparr>,
         out_reminder_dates =
          [\<lparr>ordinal = 739258, hour = 8, minute = 0, second = 0, microsecond = 0\<rparr>,
           \<lparr>ordinal = 739259, hour = 8, minute = 0, second = 0, microsecond = 0\<rparr>,
           \<lparr>ordinal = 739260, hour = 8, minute = 0, second = 0, microsecond = 0\<rparr>]\<rparr>))"
proof -
  define M where "M = \<lparr>id' = 1, user_id = 1, med_name = ''Aspirin'', icon = 1, color = 1, details = None,
        max_dosage = 2, dosage_interval = 1, dosage_frequency = ''DAY(S)'', total_supply = 20,
        start_date = \<lparr>ordinal = 739252, hour = 0, minute = 0, second = 0, microsecond = 0\<rparr>,
        start_time = None, end_date = None, duration_prior = 3,
        reminder_unit = ''DAY(S)'', repeat_reminders = 2, repeat_intervals = 1,
        repeat_unit = ''DAY(S)'', reminder_dates = None,
        created_at = None\<rparr>"
  define M2 where "M2 = \<lparr>id' = 1, user_id = 1, med_name = ''Aspirin'', icon = 1, color = 1, details = None,
        max_dosage = 2, dosage_interval = 1, dosage_frequency = ''DAY(S)'', total_supply = 20,
        start_date = \<lparr>ordinal = 739252, hour = 0, minute = 0, second = 0, microsecond = 0\<rparr>,
        start_time = None, end_date = Some \<lparr>ordinal = 739261, hour = 0, minute = 0, second = 0, microsecond = 0\<rparr>, duration_prior = 3,
        reminder_unit = ''DAY(S)'', repeat_reminders = 2, repeat_intervals = 1,
        repeat_unit = ''DAY(S)'', reminder_dates = 
          Some [''2025-01-07T08:00:00'', ''2025-01-08T08:00:00'', ''2025-01-09T08:00:00''],
        created_at = None\<rparr>"
  define out where "out = \<lparr>out_medication = 0,
         out_end_date = \<lparr>ordinal = 739261, hour = 0, minute = 0, second = 0, microsecond = 0\<rparr>,
         out_reminder_dates =
          [\<lparr>ordinal = 739258, hour = 8, minute = 0, second = 0, microsecond = 0\<rparr>,
           \<lparr>ordinal = 739259, hour = 8, minute = 0, second = 0, microsecond = 0\<rparr>,
           \<lparr>ordinal = 739260, hour = 8, minute = 0, second = 0, microsecond = 0\<rparr>]\<rparr>"
  have se: "[0 \<mapsto> M] (0::nat) = Some M" by simp
  have pe: "process_medication_reminders 0 None [0 \<mapsto> M] = (Inr out, [0 \<mapsto> M2])"
    unfolding M_def M2_def out_def by (rule process_eval)
  note f = process_medication_frame [OF se pe]
  from f have "\<forall>r'::nat. r' \<noteq> 0 \<longrightarrow> [0 \<mapsto> M2] r' = [0 \<mapsto> M] r'" by (rule conjunct1)
  then have a: "[0 \<mapsto> M2] (1::nat) = [0 \<mapsto> M] (1::nat)" by simp
  from f have "\<exists>med'. [0 \<mapsto> M2] (0::nat) = Some med'
         \<and> med'\<lparr>end_date := end_date M, reminder_dates := reminder_dates M\<rparr> = M
         \<and> (\<forall>out'. (Inr out :: py_error + processed) = Inr out' \<longrightarrow>
              out_medication out' = (0::nat)
            \<and> calculate_end_date (start_date M) (max_dosage M) (dosage_frequency M)
                (total_supply M) (dosage_interval M) (start_time M)
                = Inr (out_end_date out')
            \<and> end_date med' = Some (out_end_date out')
            \<and> calculate_reminder_dates (out_end_date out') (duration_prior M)
                (reminder_unit M) (repeat_reminders M) (repeat_intervals M)
                (repeat_unit M) None = Inr (out_reminder_dates out')
            \<and> reminder_dates med' = Some (serialize_reminder_dates (out_reminder_dates out')))"
    by (rule conjunct1 [OF conjunct2])
  then obtain med' where m: "[0 \<mapsto> M2] (0::nat) = Some med'"
    and o: "\<forall>out'. (Inr out :: py_error + processed) = Inr out' \<longrightarrow>
              out_medication out' = (0::nat)
            \<and> calculate_end_date (start_date M) (max_dosage M) (dosage_frequency M)
                (total_supply M) (dosage_interval M) (start_time M)
                = Inr (out_end_date out')
            \<and> end_date med' = Some (out_end_date out')
            \<and> calculate_reminder_dates (out_end_date out') (duration_prior M)
                (reminder_unit M) (repeat_reminders M) (repeat_intervals M)
                (repeat_unit M) None = Inr (out_reminder_dates out')
            \<and> reminder_dates med' = Some (serialize_reminder_dates (out_reminder_dates out'))"
    by (elim exE conjE)
  from m have e: "med' = M2" by simp
  note o' = o [rule_format, OF refl]
  from o' have b: "end_date M2 = Some (out_end_date out)"
    and c: "reminder_dates M2 = Some (serialize_reminder_dates (out_reminder_dates out))"
    unfolding e by blast+
  from se pe a b c show ?thesis unfolding M_def M2_def out_def by - (intro conjI, assumption+)
qed

section \<open>Properties of the calendar\<close>

lemma month_day_table:
  "\<forall>n \<in> {0..364}. \<forall>l.
     (case month_day l n of (m, d) \<Rightarrow>
        1 \<le> m \<and> m \<le> 12 \<and> 1 \<le> d \<and> d \<le> 31 \<and>
        d \<le> (if m = 2 \<and> l then 29 else DAYS_IN_MONTH ! nat m) \<and>
        DAYS_BEFORE_MONTH ! nat m + (if m > 2 \<and> l then 1 else 0) + d = n + 1)"
  by code_simp

lemma month_day_correct:
  assumes "0 \<le> n" "n \<le> 364" "month_day l n = (m, d)"
  shows "1 \<le> m" "m \<le> 12" "1 \<le> d" "d \<le> 31"
    "d \<le> (if m = 2 \<and> l then 29 else DAYS_IN_MONTH ! nat m)"
    "DAYS_BEFORE_MONTH ! nat m + (if m > 2 \<and> l then 1 else 0) + d = n + 1"
proof -
  from assms(1,2) have "n \<in> {0..364}" by simp
  note t = month_day_table [rule_format, OF this, of l]
  then have "1 \<le> m \<and> m \<le> 12 \<and> 1 \<le> d \<and> d \<le> 31 \<and>
        d \<le> (if m = 2 \<and> l then 29 else DAYS_IN_MONTH ! nat m) \<and>
        DAYS_BEFORE_MONTH ! nat m + (if m > 2 \<and> l then 1 else 0) + d = n + 1"
    unfolding assms(3) by simp
  then show "1 \<le> m" "m \<le> 12" "1 \<le> d" "d \<le> 31"
    "d \<le> (if m = 2 \<and> l then 29 else DAYS_IN_MONTH ! nat m)"
    "DAYS_BEFORE_MONTH ! nat m + (if m > 2 \<and> l then 1 else 0) + d = n + 1"
    by blast+
qed

lemma days_before_year_digits:
  assumes "0 \<le> n100" "n100 \<le> 3" "0 \<le> n4" "n4 \<le> 24" "0 \<le> n1" "n1 \<le> 3"
  shows "days_before_year (n400 * 400 + 1 + n100 * 100 + n4 * 4 + n1) =
    146097 * n400 + 36524 * n100 + 1461 * n4 + 365 * n1"
proof -
  define y where "y = n400 * 400 + n100 * 100 + n4 * 4 + n1"
  have d4: "y div 4 = 100 * n400 + 25 * n100 + n4"
    using assms by (intro int_div_pos_eq [where r = n1]) (simp_all add: y_def)
  have d100: "y div 100 = 4 * n400 + n100"
    using assms by (intro int_div_pos_eq [where r = "n4 * 4 + n1"]) (simp_all add: y_def)
  have d400: "y div 400 = n400"
    using assms by (intro int_div_pos_eq [where r = "n100 * 100 + n4 * 4 + n1"]) (simp_all add: y_def)
  have "n400 * 400 + 1 + n100 * 100 + n4 * 4 + n1 - 1 = y" by (simp add: y_def)
  then have "days_before_year (n400 * 400 + 1 + n100 * 100 + n4 * 4 + n1) =
      y * 365 + y div 4 - y div 100 + y div 400"
    unfolding days_before_year_def Let_def by simp
  also have "\<dots> = 146097 * n400 + 36524 * n100 + 1461 * n4 + 365 * n1"
    unfolding d4 d100 d400 by (simp add: y_def)
  finally show ?thesis .
qed

lemma mod_zero_range:
  fixes v b :: int
  assumes "0 < v" "v \<le> b"
  shows "(b * q + v) mod b = 0 \<longleftrightarrow> v = b"
proof (cases "v = b")
  case True
  then show ?thesis by simp
next
  case False
  with assms have "v < b" by simp
  with assms(1) have "(b * q + v) mod b = v"
    by (intro int_mod_pos_eq [where q = q]) simp_all
  with assms(1) False show ?thesis by simp
qed

lemma is_leap_digits:
  assumes "0 \<le> n100" "n100 \<le> 3" "0 \<le> n4" "n4 \<le> 24" "0 \<le> n1" "n1 \<le> 3"
  shows "is_leap (n400 * 400 + 1 + n100 * 100 + n4 * 4 + n1) \<longleftrightarrow>
    n1 = 3 \<and> (n4 \<noteq> 24 \<or> n100 = 3)"
proof -
  define year where "year = n400 * 400 + 1 + n100 * 100 + n4 * 4 + n1"
  have "year = 4 * (n400 * 100 + n100 * 25 + n4) + (n1 + 1)" by (simp add: year_def)
  then have "year mod 4 = 0 \<longleftrightarrow> n1 + 1 = 4"
    using assms by (simp only: mod_zero_range)
  then have m4: "year mod 4 = 0 \<longleftrightarrow> n1 = 3" by simp
  have "year = 100 * (n400 * 4 + n100) + (n4 * 4 + n1 + 1)" by (simp add: year_def)
  moreover have "0 < n4 * 4 + n1 + 1" "n4 * 4 + n1 + 1 \<le> 100" using assms by simp_all
  ultimately have "year mod 100 = 0 \<longleftrightarrow> n4 * 4 + n1 + 1 = 100"
    by (simp only: mod_zero_range)
  moreover have "n4 * 4 + n1 + 1 = 100 \<longleftrightarrow> n4 = 24 \<and> n1 = 3" using assms(3-6) by arith
  ultimately have m100: "year mod 100 = 0 \<longleftrightarrow> n4 = 24 \<and> n1 = 3" by simp
  have "year = 400 * n400 + (n100 * 100 + n4 * 4 + n1 + 1)" by (simp add: year_def)
  moreover have "0 < n100 * 100 + n4 * 4 + n1 + 1" "n100 * 100 + n4 * 4 + n1 + 1 \<le> 400"
    using assms by simp_all
  ultimately have "year mod 400 = 0 \<longleftrightarrow> n100 * 100 + n4 * 4 + n1 + 1 = 400"
    by (simp only: mod_zero_range)
  moreover have "n100 * 100 + n4 * 4 + n1 + 1 = 400 \<longleftrightarrow> n100 = 3 \<and> n4 = 24 \<and> n1 = 3"
    using assms by arith
  ultimately have m400: "year mod 400 = 0 \<longleftrightarrow> n100 = 3 \<and> n4 = 24 \<and> n1 = 3" by simp
  show ?thesis unfolding year_def [symmetric] is_leap_def m4 m100 m400 by blast
qed

lemma list_consts:
  "DAYS_IN_MONTH ! 12 = 31" "DAYS_BEFORE_MONTH ! 12 = 334"
  unfolding DAYS_IN_MONTH_def DAYS_BEFORE_MONTH_def by simp_all

lemma last_day_of_year:
  assumes "0 \<le> n100" "n100 \<le> 3" "0 \<le> n4" "n4 \<le> 24" "n4 \<noteq> 24 \<or> n100 = 3"
  shows "ymd2ord (n400 * 400 + 1 + n100 * 100 + n4 * 4 + 3) 12 31 =
      146097 * n400 + 36524 * n100 + 1461 * n4 + 1461"
    "days_in_month (n400 * 400 + 1 + n100 * 100 + n4 * 4 + 3) 12 = 31"
proof -
  define year where "year = n400 * 400 + 1 + n100 * 100 + n4 * 4 + 3"
  have b: "days_before_year year = 146097 * n400 + 36524 * n100 + 1461 * n4 + 365 * 3"
    unfolding year_def using assms(1-4) by (intro days_before_year_digits) simp_all
  have "is_leap year \<longleftrightarrow> (3::int) = 3 \<and> (n4 \<noteq> 24 \<or> n100 = 3)"
    unfolding year_def using assms(1-4) by (intro is_leap_digits) simp_all
  with assms(5) have l: "is_leap year" by simp
  show "ymd2ord (n400 * 400 + 1 + n100 * 100 + n4 * 4 + 3) 12 31 =
      146097 * n400 + 36524 * n100 + 1461 * n4 + 1461"
    unfolding year_def [symmetric] ymd2ord_def days_before_month_def b
    using l by (simp add: list_consts)
  show "days_in_month (n400 * 400 + 1 + n100 * 100 + n4 * 4 + 3) 12 = 31"
    unfolding days_in_month_def by (simp add: list_consts)
qed

lemma ord2ymd_correct:
  assumes "1 \<le> n" "n \<le> MAXORDINAL" "ord2ymd n = (y, m, d)"
  shows "1 \<le> y \<and> y \<le> 9999 \<and> 1 \<le> m \<and> m \<le> 12 \<and> 1 \<le> d \<and> d \<le> 31 \<and>
    d \<le> days_in_month y m \<and> ymd2ord y m d = n"
proof -
  define n0 where "n0 = n - 1"
  define n400 where "n400 = n0 div 146097"
  define na where "na = n0 mod 146097"
  define n100 where "n100 = na div 36524"
  define nb where "nb = na mod 36524"
  define n4 where "n4 = nb div 1461"
  define nc where "nc = nb mod 1461"
  define n1 where "n1 = nc div 365"
  define nd where "nd = nc mod 365"
  define year where "year = n400 * 400 + 1 + n100 * 100 + n4 * 4 + n1"
  define leap where "leap \<longleftrightarrow> n1 = 3 \<and> (n4 \<noteq> 24 \<or> n100 = 3)"
  have eq: "ord2ymd n = (if n1 = 4 \<or> n100 = 4 then (year - 1, 12, 31)
      else case month_day leap nd of (month, day) \<Rightarrow> (year, month, day))"
    unfolding ord2ymd_def Let_def year_def leap_def nd_def n1_def nc_def n4_def nb_def
      n100_def na_def n400_def n0_def ..
  have r0: "0 \<le> n0" "n0 \<le> 3652058" using assms(1,2) by (simp_all add: n0_def MAXORDINAL_def)
  have e0: "n0 = 146097 * n400 + na" by (simp add: n400_def na_def)
  have ra: "0 \<le> na" "na \<le> 146096" by (simp_all add: na_def)
  have e1: "na = 36524 * n100 + nb" by (simp add: n100_def nb_def)
  have rb: "0 \<le> nb" "nb \<le> 36523" by (simp_all add: nb_def)
  have e2: "nb = 1461 * n4 + nc" by (simp add: n4_def nc_def)
  have rc: "0 \<le> nc" "nc \<le> 1460" by (simp_all add: nc_def)
  have e3: "nc = 365 * n1 + nd" by (simp add: n1_def nd_def)
  have rd: "0 \<le> nd" "nd \<le> 364" by (simp_all add: nd_def)
  have q400: "0 \<le> n400" unfolding n400_def using r0(1) by (simp add: pos_imp_zdiv_nonneg_iff)
  have q100: "0 \<le> n100" unfolding n100_def using ra(1) by (simp add: pos_imp_zdiv_nonneg_iff)
  have q4: "0 \<le> n4" unfolding n4_def using rb(1) by (simp add: pos_imp_zdiv_nonneg_iff)
  have q1: "0 \<le> n1" unfolding n1_def using rc(1) by (simp add: pos_imp_zdiv_nonneg_iff)
  from e0 ra(1) r0(2) have u400: "n400 \<le> 24" by simp
  from e1 rb(1) ra(2) have u100: "n100 \<le> 4" by simp
  from e2 rc(1) rb(2) have u4: "n4 \<le> 24" by simp
  from e3 rd(1) rc(2) have u1: "n1 \<le> 4" by simp
  have n: "n = 146097 * n400 + 36524 * n100 + 1461 * n4 + 365 * n1 + nd + 1"
    using e0 e1 e2 e3 by (simp add: n0_def)
  show ?thesis
  proof (cases "n100 = 4")
    case True
    with e1 ra(2) rb(1) have nb: "nb = 0" by simp
    then have z: "n4 = 0" "nc = 0" by (simp_all add: n4_def nc_def)
    then have z': "n1 = 0" "nd = 0" by (simp_all add: n1_def nd_def)
    from True eq assms(3) have ymd: "y = year - 1" "m = 12" "d = 31" by simp_all
    have y: "y = n400 * 400 + 1 + 3 * 100 + 24 * 4 + 3"
      unfolding ymd year_def True z z' by simp
    from last_day_of_year [of 3 24 n400]
    have l: "ymd2ord y 12 31 = 146097 * n400 + 36524 * 3 + 1461 * 24 + 1461"
      "days_in_month y 12 = 31" unfolding y by simp_all
    from n True z z' have n': "n = 146097 * n400 + 146097" by simp
    with assms(2) have "n400 \<le> 23" by (simp add: MAXORDINAL_def)
    with q400 have "1 \<le> y" "y \<le> 9999" unfolding y by simp_all
    with l n' show ?thesis unfolding ymd(2,3) by simp
  next
    case F: False
    with u100 have u100': "n100 \<le> 3" by simp
    show ?thesis
    proof (cases "n1 = 4")
      case True
      with e3 rc(2) rd(1) have nd: "nd = 0" by simp
      from e2 e3 True nd rb(2) have u4': "n4 \<le> 23" by simp
      from True eq assms(3) have ymd: "y = year - 1" "m = 12" "d = 31" by simp_all
      have y: "y = n400 * 400 + 1 + n100 * 100 + n4 * 4 + 3"
        unfolding ymd year_def True by simp
      from u4' have "n4 \<le> 24" "n4 \<noteq> 24 \<or> n100 = 3" by simp_all
      from last_day_of_year [OF q100 u100' q4 this, of n400]
      have l: "ymd2ord y 12 31 = 146097 * n400 + 36524 * n100 + 1461 * n4 + 1461"
        "days_in_month y 12 = 31" unfolding y by simp_all
      from n True nd have n': "n = 146097 * n400 + 36524 * n100 + 1461 * n4 + 1461" by simp
      from q400 q100 q4 u400 u100' u4' have "1 \<le> y" "y \<le> 9999" unfolding y by simp_all
      with l n' show ?thesis unfolding ymd(2,3) by simp
    next
      case False
      with u1 have u1': "n1 \<le> 3" by simp
      obtain mo da where md: "month_day leap nd = (mo, da)" by (cases "month_day leap nd")
      from F False eq assms(3) md have ymd: "y = year" "m = mo" "d = da" by simp_all
      note t = month_day_correct [OF rd md]
      have dby: "days_before_year year = 146097 * n400 + 36524 * n100 + 1461 * n4 + 365 * n1"
        unfolding year_def by (rule days_before_year_digits [OF q100 u100' q4 u4 q1 u1'])
      have lp: "is_leap year \<longleftrightarrow> leap"
        unfolding year_def leap_def by (rule is_leap_digits [OF q100 u100' q4 u4 q1 u1'])
      have dim: "da \<le> days_in_month year mo"
        unfolding days_in_month_def lp by (rule t(5))
      have "ymd2ord year mo da = days_before_year year +
          (DAYS_BEFORE_MONTH ! nat mo + (if mo > 2 \<and> leap then 1 else 0) + da)"
        unfolding ymd2ord_def days_before_month_def lp by simp
      also have "\<dots> = n" unfolding t(6) dby n by simp
      finally have o: "ymd2ord year mo da = n" .
      have y1: "1 \<le> year" unfolding year_def using q400 q100 q4 q1 by simp
      have y2: "year \<le> 9999"
      proof (cases "n400 = 24")
        case False
        with u400 have "n400 \<le> 23" by simp
        with u100' u4 u1' show ?thesis unfolding year_def by simp
      next
        case True
        have "\<not> (n100 = 3 \<and> n4 = 24 \<and> n1 = 3)"
        proof
          assume "n100 = 3 \<and> n4 = 24 \<and> n1 = 3"
          with n True rd(1) have "3652060 \<le> n" by simp
          with assms(2) show False by (simp add: MAXORDINAL_def)
        qed
        with u100' u4 u1' have "n100 * 100 + n4 * 4 + n1 \<le> 398" by arith
        with True show ?thesis unfolding year_def by simp
      qed
      from y1 y2 t(1,2,3,4) dim o show ?thesis unfolding ymd by simp
    qed
  qed
qed

section \<open>Properties of the text form\<close>

lemma digit_char_ok:
  assumes "k < 10"
  shows "is_digit (digit_char k)" "digit_val (digit_char k) = k"
  using assms unfolding is_digit_def digit_val_def digit_char_def by simp_all

lemma parse_digits_append:
  "parse_digits a (xs @ ys) =
     (case parse_digits a xs of None \<Rightarrow> None | Some b \<Rightarrow> parse_digits b ys)"
  by (induction xs arbitrary: a) simp_all

lemma parse_digits_w: "parse_digits a (digits_w w n) = Some (a * 10 ^ w + n mod 10 ^ w)"
proof (induction w arbitrary: n)
  case 0
  show ?case by simp
next
  case (Suc w)
  have k: "n mod 10 < 10" by simp
  have "parse_digits a (digits_w (Suc w) n) =
      Some (10 * (a * 10 ^ w + n div 10 mod 10 ^ w) + n mod 10)"
    by (simp add: parse_digits_append Suc.IH digit_char_ok [OF k])
  also have "10 * (a * 10 ^ w + n div 10 mod 10 ^ w) + n mod 10 =
      a * 10 ^ Suc w + (10 * (n div 10 mod 10 ^ w) + n mod 10)"
    by (simp add: algebra_simps)
  also have "10 * (n div 10 mod 10 ^ w) + n mod 10 = n mod (10 * 10 ^ w)"
    by (rule mod_mult2_eq [symmetric])
  finally show ?case by simp
qed

lemma length_digits_w: "length (digits_w w n) = w"
  by (induction w arbitrary: n) simp_all

lemma fmt_digits:
  assumes "0 \<le> n" "n < 10 ^ w"
  shows "fmt w n = digits_w w (nat n)"
proof -
  from assms have "nat n < 10 ^ w" by (simp add: nat_less_iff)
  then have "floorlog 10 (nat n) \<le> w" by (simp add: floorlog_le_iff)
  with assms(1) show ?thesis unfolding fmt_def by (simp add: max_def)
qed

lemma parse_fmt:
  assumes "0 \<le> n" "n < 10 ^ w"
  shows "parse_digits 0 (fmt w n) = Some (nat n)" "length (fmt w n) = w"
proof -
  from assms have "nat n < 10 ^ w" by (simp add: nat_less_iff)
  then show "parse_digits 0 (fmt w n) = Some (nat n)"
    unfolding fmt_digits [OF assms] parse_digits_w by simp
  show "length (fmt w n) = w" unfolding fmt_digits [OF assms] by (rule length_digits_w)
qed

lemma iso_parse:
  assumes y: "0 \<le> y" "y \<le> 9999" and m: "0 \<le> m" "m \<le> 99" and dd: "0 \<le> dd" "dd \<le> 99"
    and h: "0 \<le> h" "h \<le> 99" and mi: "0 \<le> mi" "mi \<le> 99" and s: "0 \<le> s" "s \<le> 99"
    and us: "0 \<le> us" "us \<le> 999999"
  shows "fromisoformat (fmt 4 y @ ''-'' @ fmt 2 m @ ''-'' @ fmt 2 dd @ ''T'' @
        fmt 2 h @ '':'' @ fmt 2 mi @ '':'' @ fmt 2 s @
        (if us \<noteq> 0 then ''.'' @ fmt 6 us else [])) = datetime_new y m dd h mi s us"
proof -
  define Y where "Y = fmt 4 y"
  define M where "M = fmt 2 m"
  define D where "D = fmt 2 dd"
  define H where "H = fmt 2 h"
  define I where "I = fmt 2 mi"
  define S where "S = fmt 2 s"
  define U where "U = fmt 6 us"
  have pY: "parse_digits 0 Y = Some (nat y)" and lY: "length Y = 4"
    unfolding Y_def using y by (simp_all add: parse_fmt)
  have pM: "parse_digits 0 M = Some (nat m)" and lM: "length M = 2"
    unfolding M_def using m by (simp_all add: parse_fmt)
  have pD: "parse_digits 0 D = Some (nat dd)" and lD: "length D = 2"
    unfolding D_def using dd by (simp_all add: parse_fmt)
  have pH: "parse_digits 0 H = Some (nat h)" and lH: "length H = 2"
    unfolding H_def using h by (simp_all add: parse_fmt)
  have pI: "parse_digits 0 I = Some (nat mi)" and lI: "length I = 2"
    unfolding I_def using mi by (simp_all add: parse_fmt)
  have pS: "parse_digits 0 S = Some (nat s)" and lS: "length S = 2"
    unfolding S_def using s by (simp_all add: parse_fmt)
  have pU: "parse_digits 0 U = Some (nat us)" and lU: "length U = 6"
    unfolding U_def using us by (simp_all add: parse_fmt)
  note l = lY lM lD lH lI lS lU
  note p = pY pM pD pH pI pS pU
  define T where "T = (if us \<noteq> 0 then ''.'' @ U else [])"
  define str where "str = Y @ ''-'' @ M @ ''-'' @ D @ ''T'' @ H @ '':'' @ I @ '':'' @ S @ T"
  have len: "length str = (if us \<noteq> 0 then 26 else 19)"
    unfolding str_def T_def by (simp add: l)
  have n4: "str ! 4 = CHR ''-''" unfolding str_def by (simp add: nth_append l)
  have n7: "str ! 7 = CHR ''-''" unfolding str_def by (simp add: nth_append l)
  have n13: "str ! 13 = CHR '':''" unfolding str_def by (simp add: nth_append l)
  have n16: "str ! 16 = CHR '':''" unfolding str_def by (simp add: nth_append l)
  have n19: "us \<noteq> 0 \<Longrightarrow> str ! 19 = CHR ''.''"
    unfolding str_def T_def by (simp add: nth_append l)
  have t4: "take 4 str = Y" unfolding str_def by (simp add: l)
  have t5: "take 2 (drop 5 str) = M" unfolding str_def by (simp add: l)
  have t8: "take 2 (drop 8 str) = D" unfolding str_def by (simp add: l)
  have t11: "take 2 (drop 11 str) = H" unfolding str_def by (simp add: l)
  have t14: "take 2 (drop 14 str) = I" unfolding str_def by (simp add: l)
  have t17: "take 2 (drop 17 str) = S" unfolding str_def by (simp add: l)
  have t20: "drop 20 str = (if us \<noteq> 0 then U else [])"
    unfolding str_def T_def by (simp add: l)
  have pT: "parse_digits 0 (drop 20 str) = Some (nat us)"
    unfolding t20 using pU by simp
  have c: "(length str = 19 \<or> (length str = 26 \<and> str ! 19 = CHR ''.'')) \<and>
         str ! 4 = CHR ''-'' \<and> str ! 7 = CHR ''-'' \<and> str ! 13 = CHR '':'' \<and>
         str ! 16 = CHR '':''"
    using len n4 n7 n13 n16 n19 by auto
  have "fromisoformat str =
      datetime_new (int (nat y)) (int (nat m)) (int (nat dd)) (int (nat h)) (int (nat mi))
        (int (nat s)) (int (nat us))"
    unfolding fromisoformat_def t4 t5 t8 t11 t14 t17 pT p using c by simp
  also have "\<dots> = datetime_new y m dd h mi s us"
    using y m dd h mi s us by simp
  finally show ?thesis unfolding str_def T_def Y_def M_def D_def H_def I_def S_def U_def .
qed

lemma fromisoformat_isoformat:
  assumes "valid_datetime d"
  shows "fromisoformat (isoformat d) = Inr d"
proof -
  from assms have o: "1 \<le> ordinal d" "ordinal d \<le> MAXORDINAL"
    and t: "0 \<le> hour d" "hour d < 24" "0 \<le> minute d" "minute d < 60"
    "0 \<le> second d" "second d < 60" "0 \<le> microsecond d" "microsecond d < 1000000"
    unfolding valid_datetime_def by simp_all
  obtain y m dd where ymd: "ord2ymd (ordinal d) = (y, m, dd)"
    by (cases "ord2ymd (ordinal d)")
  from ord2ymd_correct [OF o ymd] have r: "1 \<le> y" "y \<le> 9999" "1 \<le> m" "m \<le> 12"
    "1 \<le> dd" "dd \<le> 31" "dd \<le> days_in_month y m" "ymd2ord y m dd = ordinal d"
    by simp_all
  have "fromisoformat (isoformat d) =
      datetime_new y m dd (hour d) (minute d) (second d) (microsecond d)"
    unfolding isoformat_def ymd prod.case
    using r t by (intro iso_parse) simp_all
  also have "\<dots> = Inr \<lparr>ordinal = ymd2ord y m dd, hour = hour d, minute = minute d,
      second = second d, microsecond = microsecond d\<rparr>"
    unfolding datetime_new_def using r t by simp
  also have "\<dots> = Inr d" unfolding r(8) by simp
  finally show ?thesis .
qed

lemma deserialize_serialize:
  "\<forall>d \<in> set s. valid_datetime d \<Longrightarrow>
     deserialize_reminder_dates (serialize_reminder_dates s) = Inr s"
  unfolding serialize_reminder_dates_def
  by (induction s) (simp_all add: fromisoformat_isoformat)

section \<open>The round trip of a schedule through its text form\<close>

lemma schedule_valid:
  assumes "calculate_reminder_dates e dp ru rr ri rpu drt = Inr s"
  shows "\<forall>d \<in> set s. valid_datetime d"
proof
  fix d assume "d \<in> set s"
  then obtain i where i: "i < length s" "d = s ! i" by (auto simp: in_set_conv_nth)
  from assms obtain fr where fr: "first_reminder_normalized e dp ru drt = Inr fr"
    and s0: "s ! 0 = fr"
    and nx: "\<forall>i. 0 < i \<longrightarrow> i < length s \<longrightarrow> next_reminder fr ri rpu (int i) = Inr (s ! i)"
    by (rule schedule_elements)
  show "valid_datetime d"
  proof (cases "i = 0")
    case True
    with i s0 first_reminder_normalized_valid [OF fr] show ?thesis by simp
  next
    case False
    with i nx have "next_reminder fr ri rpu (int i) = Inr d" by simp
    then show ?thesis by (rule next_reminder_valid)
  qed
qed

lemma serialize_eval_two:
  "serialize_reminder_dates
     [\<lparr>ordinal = 739258, hour = 8, minute = 0, second = 0, microsecond = 0\<rparr>,
      \<lparr>ordinal = 738945, hour = 23, minute = 59, second = 59, microsecond = 5\<rparr>] =
     [''2025-01-07T08:00:00'', ''2024-02-29T23:59:59.000005'']"
  by code_simp

lemma deserialize_eval_two:
  "deserialize_reminder_dates
     [''2025-01-07T08:00:00'', ''2024-02-29T23:59:59.000005''] =
   Inr [\<lparr>ordinal = 739258, hour = 8, minute = 0, second = 0, microsecond = 0\<rparr>,
      \<lparr>ordinal = 738945, hour = 23, minute = 59, second = 59, microsecond = 5\<rparr>]"
  by code_simp

lemma valid_eval_two:
  "valid_datetime \<lparr>ordinal = 739258, hour = 8, minute = 0, second = 0, microsecond = 0\<rparr>"
  "valid_datetime \<lparr>ordinal = 738945, hour = 23, minute = 59, second = 59, microsecond = 5\<rparr>"
  by (simp_all add: valid_datetime_def MAXORDINAL_def)

text \<open>
  C4: for every list \<open>s\<close> of naive timestamps (valid datetimes), the empty list and
  single-element lists included, and so for every schedule returned by
  \<^verbatim>\<open>calculate_reminder_dates\<close>, \<^verbatim>\<open>deserialize_reminder_dates(serialize_reminder_dates(s))\<close> returns
  \<open>s\<close>.
\<close>

theorem serialization_round_trip:
  "((\<forall>d \<in> set s. valid_datetime d) \<longrightarrow>
      deserialize_reminder_dates (serialize_reminder_dates s) = Inr s)
   \<and> (calculate_reminder_dates e dp ru rr ri rpu drt = Inr s' \<longrightarrow>
      deserialize_reminder_dates (serialize_reminder_dates s') = Inr s')
   \<and> deserialize_reminder_dates (serialize_reminder_dates []) = Inr []
   \<and> (valid_datetime d \<longrightarrow>
      deserialize_reminder_dates (serialize_reminder_dates [d]) = Inr [d])"
proof -
  have 1: "deserialize_reminder_dates (serialize_reminder_dates s) = Inr s"
    if "\<forall>d \<in> set s. valid_datetime d" for s
    using that by (rule deserialize_serialize)
  have 2: "deserialize_reminder_dates (serialize_reminder_dates s') = Inr s'"
    if "calculate_reminder_dates e dp ru rr ri rpu drt = Inr s'"
    using schedule_valid [OF that] by (rule 1)
  have 3: "deserialize_reminder_dates (serialize_reminder_dates []) = Inr []"
    by (rule 1) simp
  have 4: "deserialize_reminder_dates (serialize_reminder_dates [d]) = Inr [d]"
    if "valid_datetime d"
    using that by (intro 1) simp
  show ?thesis
    by (rule conjI, rule impI, erule 1, rule conjI, rule impI, erule 2, rule conjI, rule 3,
        rule impI, erule 4)
qed

theorem serialization_round_trip_witness:
  "valid_datetime \<lparr>ordinal = 739258, hour = 8, minute = 0, second = 0, microsecond = 0\<rparr>
   \<and> valid_datetime \<lparr>ordinal = 738945, hour = 23, minute = 59, second = 59, microsecond = 5\<rparr>
   \<and> serialize_reminder_dates
     [\<lparr>ordinal = 739258, hour = 8, minute = 0, second = 0, microsecond = 0\<rparr>,
      \<lparr>ordinal = 738945, hour = 23, minute = 59, second = 59, microsecond = 5\<rparr>] =
     [''2025-01-07T08:00:00'', ''2024-02-29T23:59:59.000005'']
   \<and> deserialize_reminder_dates
     [''2025-01-07T08:00:00'', ''2024-02-29T23:59:59.000005''] =
     Inr [\<lparr>ordinal = 739258, hour = 8, minute = 0, second = 0, microsecond = 0\<rparr>,
      \<lparr>ordinal = 738945, hour = 23, minute = 59, second = 59, microsecond = 5\<rparr>]
   \<and> calculate_reminder_dates
     \<lparr>ordinal = 739261, hour = 13, minute = 45, second = 27, microsecond = 123456\<rparr>
     3 ''DAY(S)'' 2 5 ''HOUR(S)'' (Some [''hour'' \<mapsto> 21, ''minute'' \<mapsto> 30]) =
   Inr [\<lparr>ordinal = 739258, hour = 21, minute = 30, second = 0, microsecond = 0\<rparr>,
        \<lparr>ordinal = 739259, hour = 2, minute = 30, second = 0, microsecond = 0\<rparr>,
        \<lparr>ordinal = 739259, hour = 7, minute = 30, second = 0, microsecond = 0\<rparr>]
   \<and> deserialize_reminder_dates (serialize_reminder_dates
       [\<lparr>ordinal = 739258, hour = 21, minute = 30, second = 0, microsecond = 0\<rparr>,
        \<lparr>ordinal = 739259, hour = 2, minute = 30, second = 0, microsecond = 0\<rparr>,
        \<lparr>ordinal = 739259, hour = 7, minute = 30, second = 0, microsecond = 0\<rparr>]) =
     Inr [\<lparr>ordinal = 739258, hour = 21, minute = 30, second = 0, microsecond = 0\<rparr>,
        \<lparr>ordinal = 739259, hour = 2, minute = 30, second = 0, microsecond = 0\<rparr>,
        \<lparr>ordinal = 739259, hour = 7, minute = 30, second = 0, microsecond = 0\<rparr>]"
  using serialization_round_trip [where
      s = "[\<lparr>ordinal = 739258, hour = 8, minute = 0, second = 0, microsecond = 0\<rparr>,
      \<lparr>ordinal = 738945, hour = 23, minute = 59, second = 59, microsecond = 5\<rparr>]"
      and d = "\<lparr>ordinal = 739258, hour = 8, minute = 0, second = 0, microsecond = 0\<rparr>"
      and e = "\<lparr>ordinal = 739261, hour = 13, minute = 45, second = 27, microsecond = 123456\<rparr>"
      and dp = 3 and ru = "''DAY(S)''" and rr = 2 and ri = 5 and rpu = "''HOUR(S)''"
      and drt = "Some [''hour'' \<mapsto> 21, ''minute'' \<mapsto> 30]"
      and s' = "[\<lparr>ordinal = 739258, hour = 21, minute = 30, second = 0, microsecond = 0\<rparr>,
        \<lparr>ordinal = 739259, hour = 2, minute = 30, second = 0, microsecond = 0\<rparr>,
        \<lparr>ordinal = 739259, hour = 7, minute = 30, second = 0, microsecond = 0\<rparr>]"]
  by (simp add: valid_eval_two serialize_eval_two schedule_eval_wrap)

end
